theory Spec2Isabelle
  imports Main "HOL-Library.Sublist"
begin

section \<open>Python string primitives\<close>

text \<open>
  Python \<open>str\<close> values are modelled as \<open>string\<close>, one \<open>char\<close> per code point, which
  covers the code points below 256 (Latin-1).  The functions below are the builtin string
  methods the scraper calls, restricted to that range.
\<close>

definition isspace :: "char \<Rightarrow> bool" where
  \<comment> \<open>\<open>str.isspace\<close> on one character: the whitespace that \<open>strip()\<close> and \<open>split()\<close> remove.\<close>
  "isspace c = (c \<in> set [CHR 0x09, CHR 0x0A, CHR 0x0B, CHR 0x0C, CHR 0x0D,
                         CHR 0x1C, CHR 0x1D, CHR 0x1E, CHR 0x1F, CHR 0x20, CHR 0x85, CHR 0xA0])"

definition isdigit :: "char \<Rightarrow> bool" where
  \<comment> \<open>\<open>str.isdigit\<close> on one character: the decimal digits and the superscripts 1, 2, 3.\<close>
  "isdigit c = (c \<in> set ''0123456789'' \<or> c \<in> set [CHR 0xB2, CHR 0xB3, CHR 0xB9])"

definition lower_char :: "char \<Rightarrow> char" where
  "lower_char c =
     (let n = (of_char c :: nat)
      in if (65 \<le> n \<and> n \<le> 90) \<or> (192 \<le> n \<and> n \<le> 222 \<and> n \<noteq> 215)
         then char_of (n + 32) else c)"

definition lower :: "string \<Rightarrow> string" where
  "lower s = map lower_char s"

definition lstrip :: "string \<Rightarrow> string" where
  "lstrip s = dropWhile isspace s"

definition rstrip :: "string \<Rightarrow> string" where
  "rstrip s = rev (dropWhile isspace (rev s))"

definition strip :: "string \<Rightarrow> string" where
  "strip s = rstrip (lstrip s)"

primrec is_in :: "string \<Rightarrow> string \<Rightarrow> bool" where
  \<comment> \<open>\<open>is_in sub s\<close> is Python's \<open>sub in s\<close>: \<open>sub\<close> occurs in \<open>s\<close> as a contiguous run.\<close>
  "is_in sub [] = (sub = [])"
| "is_in sub (c # cs) = (prefix sub (c # cs) \<or> is_in sub cs)"

fun words_from :: "string \<Rightarrow> string \<Rightarrow> string list" where
  \<comment> \<open>The scan of \<open>str.split()\<close>: \<open>cur\<close> is the word being read.\<close>
  "words_from cur [] = (if cur = [] then [] else [cur])"
| "words_from cur (c # cs) =
     (if isspace c then (if cur = [] then words_from [] cs else cur # words_from [] cs)
      else words_from (cur @ [c]) cs)"

definition split_ws :: "string \<Rightarrow> string list" where
  \<comment> \<open>\<open>s.split()\<close> with no argument: the maximal runs of non-whitespace.\<close>
  "split_ws s = words_from [] s"

fun join :: "string \<Rightarrow> string list \<Rightarrow> string" where
  \<comment> \<open>\<open>sep.join(parts)\<close>\<close>
  "join sep [] = []"
| "join sep [x] = x"
| "join sep (x # y # ys) = x @ sep @ join sep (y # ys)"

fun before_sep :: "string \<Rightarrow> string \<Rightarrow> string" where
  \<comment> \<open>\<open>s.split(sep)[0]\<close> for a non-empty \<open>sep\<close>: the text before its first occurrence.\<close>
  "before_sep sep [] = []"
| "before_sep sep (c # cs) = (if prefix sep (c # cs) then [] else c # before_sep sep cs)"

fun after_sep :: "string \<Rightarrow> string \<Rightarrow> string" where
  \<comment> \<open>\<open>s.split(sep, 1)[1]\<close> for a non-empty \<open>sep\<close> that occurs in \<open>s\<close>.\<close>
  "after_sep sep [] = []"
| "after_sep sep (c # cs) =
     (if prefix sep (c # cs) then drop (length sep) (c # cs) else after_sep sep cs)"

fun replace_from :: "string \<Rightarrow> string \<Rightarrow> nat \<Rightarrow> string \<Rightarrow> string" where
  \<comment> \<open>The left-to-right scan of \<open>str.replace\<close>; \<open>k\<close> characters of a match are still to skip.\<close>
  "replace_from old new k [] = []"
| "replace_from old new (Suc k) (c # cs) = replace_from old new k cs"
| "replace_from old new 0 (c # cs) =
     (if prefix old (c # cs) then new @ replace_from old new (length old - 1) cs
      else c # replace_from old new 0 cs)"

definition replace :: "string \<Rightarrow> string \<Rightarrow> string \<Rightarrow> string" where
  \<comment> \<open>\<open>s.replace(old, new)\<close> for a non-empty \<open>old\<close>.\<close>
  "replace old new s = replace_from old new 0 s"

section \<open>Label normalizer\<close>

definition normalize_label :: "string \<Rightarrow> string" where
  "normalize_label text = join '' '' (split_ws (lower text))"

definition extract_base_colour :: "string \<Rightarrow> string" where
  "extract_base_colour colour_text =
     (let text = strip colour_text
      in if is_in '' - '' text then lower (strip (before_sep '' - '' text))
         else lower text)"

definition script_extract_base_colour :: "string \<Rightarrow> string" where
  \<comment> \<open>The function of the same name that \<open>test_colour_matching.py\<close> defines and runs its
      cases on.\<close>
  "script_extract_base_colour colour_text =
     (let text = strip colour_text
      in if (prefix ''gelback-'' (lower text) \<or> prefix ''gel back-'' (lower text))
            \<and> is_in ''-'' text
         then lower (strip (after_sep ''-'' text))
         else if is_in '' - '' text then lower (strip (before_sep '' - '' text))
         else if (prefix ''gelback '' (lower text) \<or> prefix ''gel back '' (lower text))
                 \<and> is_in '' '' text
         then lower (strip (after_sep '' '' text))
         else lower text)"

definition extract_base_size :: "string \<Rightarrow> string" where
  "extract_base_size size_text =
     (let text = strip size_text;
          text = (if is_in ''('' text then strip (before_sep ''('' text) else text);
          text = strip (replace ''selected'' [] (replace ''Most popular'' [] text))
      in lower text)"

definition option_matches :: "string \<Rightarrow> string \<Rightarrow> bool" where
  "option_matches option_text target =
     (let option_normalized = normalize_label option_text;
          target_normalized = normalize_label target
      in if is_in target_normalized option_normalized then True
         else if (is_in '' - '' option_text \<or> is_in '' - '' target) \<and>
                 (let option_base = extract_base_colour option_text;
                      target_base = extract_base_colour target
                  in option_base = target_base \<or> is_in target_base option_base
                     \<or> is_in option_base target_base)
         then True
         else if (is_in ''cm'' (lower option_text) \<or>
                  (is_in ''x'' (lower option_text) \<and> list_ex isdigit option_text)) \<and>
                 (let option_base = extract_base_size option_text;
                      target_base = extract_base_size target;
                      option_base_clean = replace '' '' [] option_base;
                      target_base_clean = replace '' '' [] target_base
                  in option_base = target_base \<or> is_in target_base option_base
                     \<or> option_base_clean = target_base_clean)
         then True
         else False)"

section \<open>Variant descriptor builder\<close>

text \<open>
  The functions of \<open>urllib.parse\<close> are library code.  The builder and the result rows use
  three of them, taken here as parameters.
\<close>

record urllib =
  strip_query_fragment :: "string \<Rightarrow> string"
    \<comment> \<open>\<open>urlparse(u)._replace(query="", fragment="").geturl()\<close>\<close>
  url_path :: "string \<Rightarrow> string"
    \<comment> \<open>\<open>urlparse(u).path\<close>\<close>
  query_var :: "string \<Rightarrow> string list option"
    \<comment> \<open>\<open>parse_qs(urlparse(u).query).get("var")\<close>\<close>

datatype cell =
    NoValue              \<comment> \<open>\<open>None\<close>: the column is absent from the sheet\<close>
  | NaN                  \<comment> \<open>the missing value of pandas\<close>
  | Text string          \<comment> \<open>a \<open>str\<close> cell; \<open>read_excel\<close> turns blank cells and texts such as
                              \<open>N/A\<close>, \<open>n/a\<close>, \<open>NA\<close> into the missing value\<close>
  | Other string bool    \<comment> \<open>any other value, by its \<open>str()\<close> rendering and its truthiness\<close>

fun notna :: "cell \<Rightarrow> bool" where
  "notna NoValue = False"
| "notna NaN = False"
| "notna (Text v) = True"
| "notna (Other v t) = True"

fun cell_str :: "cell \<Rightarrow> string" where
  "cell_str NoValue = ''None''"
| "cell_str NaN = ''nan''"
| "cell_str (Text v) = v"
| "cell_str (Other v t) = v"

fun cell_truthy :: "cell \<Rightarrow> bool" where
  "cell_truthy NoValue = False"
| "cell_truthy NaN = True"
| "cell_truthy (Text v) = (v \<noteq> [])"
| "cell_truthy (Other v t) = t"

fun truthy :: "string option \<Rightarrow> bool" where
  \<comment> \<open>Python's truth value of an \<open>Optional[str]\<close>.\<close>
  "truthy None = False"
| "truthy (Some v) = (v \<noteq> [])"

definition py_or :: "string option \<Rightarrow> string option \<Rightarrow> string option" where
  \<comment> \<open>\<open>a or b\<close>\<close>
  "py_or a b = (if truthy a then a else b)"

fun clean_cell_value :: "cell \<Rightarrow> string option" where
  "clean_cell_value NoValue = None"
| "clean_cell_value (Text v) = (let cleaned = strip v in if cleaned = [] then None else Some cleaned)"
| "clean_cell_value NaN = None"
| "clean_cell_value (Other v t) = (let text = strip v in if text = [] then None else Some text)"

record sheet_row =
  listing_url_cell :: cell
  variation_cell :: cell
  pack_type_cell :: cell
  dimensions_cell :: cell
  sheet_stock_status_cell :: cell
  stock_name_cell :: cell
  sr_no_cell :: cell
  item_number_cell :: cell

record variant_record =
  row_index :: int
  excel_row :: int
  source_url :: string
  sr_no :: cell
  stock_name :: "string option"
  variation :: "string option"
  size_value :: "string option"     \<comment> \<open>the field \<open>size\<close>\<close>
  dimensions :: "string option"
  sheet_stock_status :: "string option"
  item_number :: "string option"
  listing_url :: string

definition COLOUR_WORDS :: "string list" where
  "COLOUR_WORDS = [''cream'', ''black'', ''grey'', ''gray'', ''brown'', ''beige'', ''blue'',
                   ''green'', ''white'', ''red'', ''silver'', ''dark'']"

fun colour_from_parts :: "string list \<Rightarrow> string option" where
  \<comment> \<open>The scan \<open>for i, part in enumerate(parts)\<close>: the first colour word decides.\<close>
  "colour_from_parts [] = None"
| "colour_from_parts (part # rest) =
     (if lower part \<in> set COLOUR_WORDS
      then (let remaining = join '' '' (part # rest)
            in if is_in '' - '' remaining
               then Some (strip (before_sep '' - '' remaining) @ '' - Greekey'')
               else Some (strip remaining))
      else colour_from_parts rest)"

definition colour_from_name :: "string \<Rightarrow> string option" where
  "colour_from_name name = colour_from_parts (split_ws name)"

definition has_greekey :: "string option \<Rightarrow> bool" where
  \<comment> \<open>\<open>prev_record.variation and " - Greekey" in prev_record.variation\<close>\<close>
  "has_greekey v = (case v of None \<Rightarrow> False | Some t \<Rightarrow> t \<noteq> [] \<and> is_in '' - Greekey'' t)"

definition size_clean :: "string option \<Rightarrow> string" where
  \<comment> \<open>\<open>prev_size_clean\<close>\<close>
  "size_clean sz =
     (case sz of None \<Rightarrow> []
      | Some t \<Rightarrow> if t = [] then []
                  else strip (replace ''cm'' [] (replace '' cm'' [] (lower t))))"

fun inherit_colour :: "string \<Rightarrow> string option \<Rightarrow> variant_record list \<Rightarrow> string option" where
  \<comment> \<open>The backward walk \<open>for prev_idx in range(idx - 1, 0, -1)\<close>; the list is the history,
      latest record first.\<close>
  "inherit_colour base_url color [] = color"
| "inherit_colour base_url color (prev_record # earlier) =
     (if listing_url prev_record = base_url then
        (if has_greekey (variation prev_record) then
           (if size_clean (size_value prev_record) \<noteq> [] then variation prev_record
            else inherit_colour base_url color earlier)
         else if truthy (stock_name prev_record) \<and> \<not> truthy color then
           (let color = (case colour_from_name (the (stock_name prev_record)) of
                           None \<Rightarrow> color | Some inherited_color \<Rightarrow> Some inherited_color)
            in if truthy color then color else inherit_colour base_url color earlier)
         else inherit_colour base_url color earlier)
      else color)"

definition PLACEHOLDERS :: "string list" where
  "PLACEHOLDERS = [ [], ''n/a'', ''na'', ''select'', ''rug'']"

definition resolve_size :: "string option \<Rightarrow> string option \<Rightarrow> string option" where
  \<comment> \<open>Lines 314 to 318: the value stored in the field \<open>size\<close>.\<close>
  "resolve_size dims pack_type =
     (let size_value = py_or dims pack_type;
          size_value = (if truthy size_value \<and> lower (strip (the size_value)) \<in> set PLACEHOLDERS
                        then dims else size_value);
          size_value = (if \<not> truthy size_value then pack_type else size_value)
      in size_value)"

definition build_record ::
  "urllib \<Rightarrow> int \<Rightarrow> sheet_row \<Rightarrow> variant_record list \<Rightarrow> (string \<rightharpoonup> string)
     \<Rightarrow> variant_record \<times> (string \<rightharpoonup> string)" where
  \<comment> \<open>One pass of the loop body, up to the construction of the record.\<close>
  "build_record U idx row history_records last_variation_by_listing =
     (let raw_url = strip (cell_str (listing_url_cell row));
          base_url = strip_query_fragment U raw_url;
          color = clean_cell_value (variation_cell row);
          table = (if truthy color then last_variation_by_listing(base_url \<mapsto> the color)
                   else last_variation_by_listing);
          color = (if truthy color then color else last_variation_by_listing base_url);
          pack_type = clean_cell_value (pack_type_cell row);
          dims = clean_cell_value (dimensions_cell row);
          status_value = clean_cell_value (sheet_stock_status_cell row);
          product_name = clean_cell_value (stock_name_cell row);
          color = (if \<not> truthy color \<and> truthy product_name
                   then (case colour_from_name (the product_name) of
                           None \<Rightarrow> color | Some found \<Rightarrow> Some found)
                   else color);
          color = (if \<not> truthy color \<and> truthy (py_or dims pack_type)
                   then inherit_colour base_url color (rev history_records)
                   else color)
      in (\<lparr> row_index = idx, excel_row = idx + 2, source_url = raw_url,
            sr_no = sr_no_cell row, stock_name = product_name, variation = color,
            size_value = resolve_size dims pack_type, dimensions = dims,
            sheet_stock_status = status_value,
            item_number = (if cell_truthy (item_number_cell row)
                           then Some (cell_str (item_number_cell row)) else None),
            listing_url = base_url \<rparr>, table))"

fun load_loop ::
  "urllib \<Rightarrow> int option \<Rightarrow> int \<Rightarrow> int \<Rightarrow> sheet_row list \<Rightarrow> variant_record list
     \<Rightarrow> variant_record list \<Rightarrow> (string \<rightharpoonup> string) \<Rightarrow> variant_record list" where
  \<comment> \<open>\<open>for idx, row in enumerate(df.itertuples(index=False), start=1)\<close>\<close>
  "load_loop U limit start_row idx [] records history_records table = records"
| "load_loop U limit start_row idx (row # rows) records history_records table =
     (case build_record U idx row history_records table of
        (record, table') \<Rightarrow>
          if idx < start_row
          then load_loop U limit start_row (idx + 1) rows records (history_records @ [record]) table'
          else if (case limit of None \<Rightarrow> False
                   | Some l \<Rightarrow> l \<le> int (length (records @ [record])))
          then records @ [record]
          else load_loop U limit start_row (idx + 1) rows (records @ [record])
                 (history_records @ [record]) table')"

definition load_variants_from_excel ::
  "urllib \<Rightarrow> sheet_row list \<Rightarrow> int option \<Rightarrow> int option \<Rightarrow> variant_record list" where
  \<comment> \<open>From the data frame with its columns renamed, for a sheet that has a \<open>LISTING LINK\<close>
      column: \<open>rows\<close> are the rows below the header, each with the cells of the columns the
      loader reads.  Reading the file and resolving the headers come before.\<close>
  "load_variants_from_excel U rows limit start_row =
     (let start_row = (case start_row of None \<Rightarrow> 1 | Some s \<Rightarrow> if s < 1 then 1 else s);
          df = filter (\<lambda>row. notna (listing_url_cell row)) rows
      in load_loop U limit start_row 1 df [] [] Map.empty)"

section \<open>Static availability detector\<close>

datatype failure =
    ChallengeDetected string        \<comment> \<open>each exception carries \<open>str(exc)\<close>\<close>
  | PlaywrightTimeoutError string
  | OtherException string

datatype http_reply =
    Response int string             \<comment> \<open>\<open>status_code\<close> and \<open>text\<close> of what \<open>session.get\<close> returns\<close>
  | GetRaised string                \<comment> \<open>\<open>session.get\<close> raises\<close>

definition CHALLENGE_MARKERS :: "string list" where
  "CHALLENGE_MARKERS = [''Pardon our interruption'', ''captcha'', ''ebay-static-captcha'',
                        ''challenge'']"

definition CHALLENGE_MARKERS_LOWER :: "string list" where
  "CHALLENGE_MARKERS_LOWER = map lower CHALLENGE_MARKERS"

definition AVAILABILITY_JSON_KEYS :: "string list" where
  "AVAILABILITY_JSON_KEYS = [''availability'', ''availabilityType'']"

definition AVAILABILITY_STRINGS :: "(string \<times> string) list" where
  \<comment> \<open>The dictionary in its insertion order, which is the order a scan of it follows.\<close>
  "AVAILABILITY_STRINGS =
     [(''http://schema.org/InStock'', ''IN_STOCK''),
      (''http://schema.org/OutOfStock'', ''OUT_OF_STOCK''),
      (''InStock'', ''IN_STOCK''),
      (''OutOfStock'', ''OUT_OF_STOCK''),
      (''AVAILABLE'', ''IN_STOCK''),
      (''UNAVAILABLE'', ''OUT_OF_STOCK'')]"

fun digits_of :: "nat \<Rightarrow> string" where
  "digits_of n =
     (if n < 10 then [''0123456789'' ! n]
      else digits_of (n div 10) @ [''0123456789'' ! (n mod 10)])"

definition str_int :: "int \<Rightarrow> string" where
  \<comment> \<open>\<open>str(i)\<close>, as the f-string of the status message renders it\<close>
  "str_int i = (if i < 0 then CHR ''-'' # digits_of (nat (- i)) else digits_of (nat i))"

definition fetch_listing_html :: "http_reply \<Rightarrow> string \<Rightarrow> failure + string" where
  \<comment> \<open>The first argument is what \<open>session.get(url, timeout=timeout)\<close> does on this call.\<close>
  "fetch_listing_html reply url =
     (case reply of
        GetRaised msg \<Rightarrow> Inl (OtherException msg)
      | Response status_code text \<Rightarrow>
          if status_code \<noteq> 200
          then Inl (OtherException (''Unexpected status '' @ str_int status_code @ '' for '' @ url))
          else if list_ex (\<lambda>marker. is_in marker (lower text)) CHALLENGE_MARKERS_LOWER
          then Inl (ChallengeDetected (''Bot challenge detected for '' @ url))
          else Inr text)"

datatype json =
    JString string
  | JObject "(string \<times> json) list"    \<comment> \<open>a \<open>dict\<close>: its items, each key once\<close>
  | JArray "json list"
  | JOther                             \<comment> \<open>numbers, booleans, \<open>null\<close>\<close>

fun scan_keys :: "string list \<Rightarrow> (string \<times> json) list \<Rightarrow> string option" where
  \<comment> \<open>\<open>for key in AVAILABILITY_JSON_KEYS\<close>\<close>
  "scan_keys [] data = None"
| "scan_keys (key # keys) data =
     (case map_of data key of
        Some (JString v) \<Rightarrow>
          (case map_of AVAILABILITY_STRINGS v of
             Some standardised \<Rightarrow>
               if standardised \<noteq> [] then Some standardised else scan_keys keys data
           | None \<Rightarrow> scan_keys keys data)
      | _ \<Rightarrow> scan_keys keys data)"

definition parse_availability_from_json :: "(string \<times> json) list \<Rightarrow> string option" where
  "parse_availability_from_json data =
     (case scan_keys AVAILABILITY_JSON_KEYS data of
        Some standardised \<Rightarrow> Some standardised
      | None \<Rightarrow>
          (case map_of data ''offers'' of
             Some (JObject offers) \<Rightarrow>
               (case map_of offers ''availability'' of
                  Some (JString availability) \<Rightarrow>
                    (case map_of AVAILABILITY_STRINGS availability of
                       Some standardised \<Rightarrow>
                         if standardised \<noteq> [] then Some standardised else None
                     | None \<Rightarrow> None)
                | _ \<Rightarrow> None)
           | _ \<Rightarrow> None))"

text \<open>
  \<open>BeautifulSoup(html, "html.parser")\<close> and \<open>json.loads\<close> are library code: a parsed document
  is given by what the detector reads from it.
\<close>

record soup =
  ld_json_scripts :: "json option list"
    \<comment> \<open>\<open>json.loads(script.string)\<close> of each \<open>application/ld+json\<close> script, in document
        order; \<open>None\<close> where it raises \<open>TypeError\<close> or \<open>JSONDecodeError\<close>\<close>
  get_text :: string
    \<comment> \<open>\<open>soup.get_text(" ", strip=True)\<close>\<close>

fun scan_entries :: "json list \<Rightarrow> string option" where
  \<comment> \<open>\<open>for entry in payload\<close>\<close>
  "scan_entries [] = None"
| "scan_entries (entry # entries) =
     (case entry of
        JObject data \<Rightarrow>
          (case parse_availability_from_json data of
             Some availability \<Rightarrow>
               if availability \<noteq> [] then Some availability else scan_entries entries
           | None \<Rightarrow> scan_entries entries)
      | _ \<Rightarrow> scan_entries entries)"

fun scan_scripts :: "json option list \<Rightarrow> string option" where
  \<comment> \<open>\<open>for script in soup.find_all("script", ...)\<close>\<close>
  "scan_scripts [] = None"
| "scan_scripts (script # scripts) =
     (case script of
        None \<Rightarrow> scan_scripts scripts
      | Some (JObject data) \<Rightarrow>
          (case parse_availability_from_json data of
             Some availability \<Rightarrow>
               if availability \<noteq> [] then Some availability else scan_scripts scripts
           | None \<Rightarrow> scan_scripts scripts)
      | Some (JArray payload) \<Rightarrow>
          (case scan_entries payload of
             Some availability \<Rightarrow> Some availability
           | None \<Rightarrow> scan_scripts scripts)
      | Some _ \<Rightarrow> scan_scripts scripts)"

definition AVAILABILITY_TOKEN :: string where
  \<comment> \<open>the text \<open>"availability":\<close> with its two double quotes\<close>
  "AVAILABILITY_TOKEN = [CHR 0x22] @ ''availability'' @ [CHR 0x22] @ '':''"

definition detect_availability :: "(string \<Rightarrow> soup) \<Rightarrow> string \<Rightarrow> string" where
  "detect_availability parser html =
     (let soup = parser html
      in case scan_scripts (ld_json_scripts soup) of
           Some availability \<Rightarrow> availability
         | None \<Rightarrow>
             (let normalized = lower (get_text soup)
              in if is_in ''out of stock'' normalized then ''OUT_OF_STOCK''
                 else if is_in ''in stock'' normalized \<or> is_in ''last one'' normalized
                 then ''IN_STOCK''
                 else if is_in AVAILABILITY_TOKEN html
                 then (case find (\<lambda>(token, status). is_in token html) AVAILABILITY_STRINGS of
                         Some (token, status) \<Rightarrow> status
                       | None \<Rightarrow> ''UNKNOWN'')
                 else ''UNKNOWN''))"

section \<open>Result rows\<close>

record detection_result =
  res_row_index :: int
  res_excel_row :: int
  res_sheet_sr_no :: cell
  res_stock_name :: "string option"
  res_variation :: "string option"
  res_size :: "string option"
  res_dimensions :: "string option"
  res_sheet_stock_status :: "string option"
  detected_status :: string
  res_item_number :: "string option"
  res_variation_id :: "string option"
  res_listing_url :: string
  res_source_url :: "string option"   \<comment> \<open>the key \<open>source_url\<close>, which only the static rows have\<close>
  error_message :: "string option"    \<comment> \<open>the key \<open>error\<close>\<close>

fun split_on :: "char \<Rightarrow> string \<Rightarrow> string list" where
  \<comment> \<open>\<open>s.split(d)\<close> for a one-character separator\<close>
  "split_on d [] = [ [] ]"
| "split_on d (c # cs) =
     (if c = d then [] # split_on d cs
      else (case split_on d cs of [] \<Rightarrow> [ [c] ] | p # ps \<Rightarrow> (c # p) # ps))"

definition str_isdigit :: "string \<Rightarrow> bool" where
  "str_isdigit s = (s \<noteq> [] \<and> list_all isdigit s)"

definition base_item_id :: "urllib \<Rightarrow> variant_record \<Rightarrow> string option" where
  "base_item_id U r =
     (if listing_url r = [] then None
      else (let path = url_path U (listing_url r);
                path_parts = split_on CHR ''/'' (rev (dropWhile (\<lambda>c. c = CHR ''/'') (rev path)))
            in find str_isdigit (rev path_parts)))"

definition variation_id :: "urllib \<Rightarrow> variant_record \<Rightarrow> string option" where
  "variation_id U r =
     (case query_var U (source_url r) of
        Some (v # vs) \<Rightarrow> Some v
      | _ \<Rightarrow> None)"

definition result_row ::
  "urllib \<Rightarrow> variant_record \<Rightarrow> string \<Rightarrow> string option \<Rightarrow> string option \<Rightarrow> detection_result" where
  \<comment> \<open>The dictionary appended to \<open>results\<close>.\<close>
  "result_row U record availability error src =
     \<lparr> res_row_index = row_index record, res_excel_row = excel_row record,
       res_sheet_sr_no = sr_no record, res_stock_name = stock_name record,
       res_variation = variation record, res_size = size_value record,
       res_dimensions = dimensions record,
       res_sheet_stock_status = sheet_stock_status record,
       detected_status = availability,
       res_item_number = py_or (item_number record) (base_item_id U record),
       res_variation_id = variation_id U record,
       res_listing_url = listing_url record,
       res_source_url = src,
       error_message = error \<rparr>"

section \<open>Challenge and retry controller, static mode\<close>

definition session_get ::
  "(nat \<Rightarrow> http_reply) \<Rightarrow> nat \<Rightarrow> string \<Rightarrow> (nat \<times> string) list
     \<Rightarrow> http_reply \<times> (nat \<times> string) list" where
  \<comment> \<open>\<open>session.get(url, timeout=timeout)\<close> on the pass \<open>k\<close> of a record: the session answers
      with \<open>replies k\<close>, and the request is written to the log of GETs.\<close>
  "session_get replies k url gets = (replies k, gets @ [(k, url)])"

function requests_attempts ::
  "(string \<Rightarrow> soup) \<Rightarrow> (nat \<Rightarrow> http_reply) \<Rightarrow> string \<Rightarrow> int \<Rightarrow> int \<Rightarrow> string \<Rightarrow> string option
     \<Rightarrow> (nat \<times> string) list \<Rightarrow> string \<times> string option \<times> int \<times> (nat \<times> string) list" where
  \<comment> \<open>\<open>while attempts <= max_retries\<close>; \<open>replies k\<close> is the reply to the GET of pass \<open>k\<close>,
      counted from 0.  Returns \<open>availability\<close>, \<open>error_message\<close>, \<open>attempts\<close> and the log of
      the GETs made, each with its pass.\<close>
  "requests_attempts parser replies url max_retries attempts availability error gets =
     (if attempts \<le> max_retries then
        (case session_get replies (nat attempts) url gets of
           (reply, gets') \<Rightarrow>
             (case fetch_listing_html reply url of
                Inr html \<Rightarrow> (detect_availability parser html, None, attempts + 1, gets')
              | Inl (ChallengeDetected msg) \<Rightarrow>
                  requests_attempts parser replies url max_retries (attempts + 1) ''BLOCKED''
                    (Some msg) gets'
              | Inl (PlaywrightTimeoutError msg) \<Rightarrow>
                  requests_attempts parser replies url max_retries (attempts + 1) ''ERROR''
                    (Some msg) gets'
              | Inl (OtherException msg) \<Rightarrow>
                  requests_attempts parser replies url max_retries (attempts + 1) ''ERROR''
                    (Some msg) gets'))
      else (availability, error, attempts, gets))"
  by pat_completeness auto
termination
  by (relation "measure (\<lambda>(parser, replies, url, max_retries, attempts, availability, error, gets).
                           nat (max_retries + 1 - attempts))") (auto simp: session_get_def)

fun requests_rows ::
  "urllib \<Rightarrow> (string \<Rightarrow> soup) \<Rightarrow> (nat \<Rightarrow> nat \<Rightarrow> http_reply) \<Rightarrow> int \<Rightarrow> nat \<Rightarrow> variant_record list
     \<Rightarrow> detection_result list \<times> (nat \<times> nat \<times> string) list" where
  \<comment> \<open>\<open>for index, record in enumerate(records, start=1)\<close>, from position \<open>i\<close> on.\<close>
  "requests_rows U parser replies max_retries i [] = ([], [])"
| "requests_rows U parser replies max_retries i (record # rest) =
     (case requests_attempts parser (replies i) (listing_url record) max_retries 0 ''BLOCKED'' None [] of
        (availability, error, attempts, gets) \<Rightarrow>
          (case requests_rows U parser replies max_retries (Suc i) rest of
             (results, later_gets) \<Rightarrow>
               (result_row U record availability error (Some (source_url record)) # results,
                map (\<lambda>(k, url). (i, k, url)) gets @ later_gets)))"

definition process_variants_requests ::
  "urllib \<Rightarrow> (string \<Rightarrow> soup) \<Rightarrow> (nat \<Rightarrow> nat \<Rightarrow> http_reply) \<Rightarrow> variant_record list \<Rightarrow> int
     \<Rightarrow> detection_result list \<times> (nat \<times> nat \<times> string) list" where
  \<comment> \<open>\<open>replies i k\<close> is what the session answers to the GET of pass \<open>k\<close> for the record at
      position \<open>i\<close> (both from 0).  The result is the rows of the data frame and the log of
      the GETs issued: the position of the record, the pass and the URL requested.\<close>
  "process_variants_requests U parser replies records max_retries =
     requests_rows U parser replies max_retries 0 records"

section \<open>Interactive selection engine\<close>

text \<open>
  The page driver is an external collaborator.  A page visit is given by what the driver
  answers while the engine works on it.  A control is operated at most once in a visit
  (\<open>used_indices\<close>), so a group carries the content its control shows when it is operated.
\<close>

record dom_option =
  inner_text :: string                       \<comment> \<open>\<open>option.inner_text()\<close>\<close>
  data_sku_value_name :: "string option"     \<comment> \<open>attribute \<open>data-sku-value-name\<close>\<close>
  class_attr :: "string option"              \<comment> \<open>attribute \<open>class\<close>\<close>
  aria_disabled :: "string option"           \<comment> \<open>attribute \<open>aria-disabled\<close>\<close>
  disabled_attr :: "string option"           \<comment> \<open>attribute \<open>disabled\<close> of a native option\<close>
  value_attr :: "string option"              \<comment> \<open>attribute \<open>value\<close> of a native option\<close>
  click_times_out :: bool                    \<comment> \<open>\<open>click(timeout=10000)\<close> raises a timeout\<close>

record variant_group =
  label :: string
  gtype :: string                            \<comment> \<open>the key \<open>type\<close>\<close>
  button_present :: bool                     \<comment> \<open>one of the two button locators counts an element\<close>
  group_options :: "dom_option list"         \<comment> \<open>the options located once the control is open\<close>
  driver_fault :: "failure option"           \<comment> \<open>an exception the driver raises on this control\<close>

definition GROUP_KEYWORDS :: "string \<Rightarrow> string list" where
  \<comment> \<open>\<open>GROUP_KEYWORDS.get(dimension, [])\<close>\<close>
  "GROUP_KEYWORDS dimension =
     (if dimension = ''size'' then [''size'', ''length'', ''dimensions'']
      else if dimension = ''variation''
      then [''colour'', ''color'', ''design'', ''style'', ''pattern'']
      else [])"

fun first_keyword_group ::
  "string list \<Rightarrow> nat set \<Rightarrow> nat \<Rightarrow> variant_group list \<Rightarrow> nat option" where
  \<comment> \<open>The first loop of \<open>find_group_for_dimension\<close>, at index \<open>idx\<close>.\<close>
  "first_keyword_group keywords used_indices idx [] = None"
| "first_keyword_group keywords used_indices idx (grp # groups) =
     (if idx \<in> used_indices then first_keyword_group keywords used_indices (Suc idx) groups
      else if list_ex (\<lambda>keyword. is_in keyword (normalize_label (label grp))) keywords
      then Some idx
      else first_keyword_group keywords used_indices (Suc idx) groups)"

fun first_unused :: "nat set \<Rightarrow> nat \<Rightarrow> variant_group list \<Rightarrow> nat option" where
  \<comment> \<open>The second loop: fallback to the first unused index.\<close>
  "first_unused used_indices idx [] = None"
| "first_unused used_indices idx (grp # groups) =
     (if idx \<notin> used_indices then Some idx else first_unused used_indices (Suc idx) groups)"

definition find_group_for_dimension ::
  "variant_group list \<Rightarrow> string \<Rightarrow> nat set \<Rightarrow> nat option" where
  "find_group_for_dimension groups dimension used_indices =
     (case first_keyword_group (GROUP_KEYWORDS dimension) used_indices 0 groups of
        Some idx \<Rightarrow> Some idx
      | None \<Rightarrow> first_unused used_indices 0 groups)"

definition interpret_option_state ::
  "string \<Rightarrow> string option \<Rightarrow> string option \<Rightarrow> bool \<times> string" where
  "interpret_option_state option_text class_attribute aria =
     (let text_lower = lower option_text;
          state = (False, []);
          state = (if truthy class_attribute
                      \<and> is_in ''listbox__option--disabled'' (the class_attribute)
                   then (True, ''Option marked out of stock (disabled class)'') else state);
          state = (if aria = Some ''true''
                   then (True, ''Option marked out of stock (aria-disabled=true)'') else state);
          state = (if is_in ''out of stock'' text_lower
                   then (True, ''Label indicates out of stock'') else state)
      in state)"

definition not_found :: "string \<Rightarrow> string" where
  \<comment> \<open>the f-string \<open>Variant value '{target_value}' not found\<close>\<close>
  "not_found target_value = ''Variant value '' @ [CHR 0x27] @ target_value @ [CHR 0x27] @ '' not found''"

definition click_timeout :: "string \<Rightarrow> string" where
  \<comment> \<open>the f-string \<open>Timeout clicking option '{target_value}' - element not interactable\<close>\<close>
  "click_timeout target_value =
     ''Timeout clicking option '' @ [CHR 0x27] @ target_value @ [CHR 0x27]
       @ '' - element not interactable''"

definition chosen_option :: "dom_option list \<Rightarrow> string \<Rightarrow> (dom_option \<times> string) option" where
  \<comment> \<open>The two scans of the popup's options: first by \<open>data-sku-value-name\<close>, then by text.
      Gives \<open>chosen_option\<close> and \<open>chosen_text\<close>.\<close>
  "chosen_option options target_value =
     (case find (\<lambda>option. truthy (data_sku_value_name option)
                          \<and> option_matches (the (data_sku_value_name option)) target_value) options of
        Some option \<Rightarrow> Some (option, strip (inner_text option))
      | None \<Rightarrow>
          (case find (\<lambda>option. option_matches (strip (inner_text option)) target_value) options of
             Some option \<Rightarrow> Some (option, strip (inner_text option))
           | None \<Rightarrow> None))"

definition select_option_from_group ::
  "variant_group \<Rightarrow> string \<Rightarrow> failure + (bool \<times> string option)" where
  "select_option_from_group grp target_value =
     (case driver_fault grp of
        Some exc \<Rightarrow> Inl exc
      | None \<Rightarrow>
          if gtype grp = ''select'' then
            (case find (\<lambda>option. option_matches (strip (inner_text option)) target_value)
                    (group_options grp) of
               Some option \<Rightarrow>
                 if disabled_attr option \<noteq> None then Inr (False, Some ''Option disabled'')
                 else Inr (True, None)
             | None \<Rightarrow> Inr (False, Some (not_found target_value)))
          else if \<not> button_present grp then Inr (False, Some ''Variant selector button missing'')
          else
            (case chosen_option (group_options grp) target_value of
               None \<Rightarrow> Inr (False, Some (not_found target_value))
             | Some (option, chosen_text) \<Rightarrow>
                 (case interpret_option_state chosen_text (class_attr option) (aria_disabled option) of
                    (disabled, reason) \<Rightarrow>
                      if disabled
                      then Inr (False, Some (if reason \<noteq> [] then reason else ''Option disabled''))
                      else if click_times_out option
                      then Inr (False, Some (click_timeout target_value))
                      else Inr (True, None))))"

definition evaluate_availability ::
  "failure + string option \<Rightarrow> failure + string option \<Rightarrow> string \<times> string option" where
  \<comment> \<open>The arguments are the outcomes of the first \<open>page.evaluate(script)\<close> and of the retry.\<close>
  "evaluate_availability first_try second_try =
     (case (case first_try of
              Inr text \<Rightarrow> Some text
            | Inl exc \<Rightarrow> (case second_try of Inr text \<Rightarrow> Some text | Inl retry_exc \<Rightarrow> None)) of
        None \<Rightarrow> (''IN_STOCK'', None)
      | Some availability_text \<Rightarrow>
          if truthy availability_text then
            (let lowered = lower (the availability_text)
             in if is_in ''out of stock'' lowered \<or> is_in ''unavailable'' lowered
                then (''OUT_OF_STOCK'', availability_text)
                else if is_in ''add to basket disabled'' lowered
                then (''OUT_OF_STOCK'', availability_text)
                else (''IN_STOCK'', availability_text))
          else (''IN_STOCK'', availability_text))"

record page_visit =
  goto_fault :: "failure option"
    \<comment> \<open>an exception out of \<open>page.goto\<close> or the waits that follow it\<close>
  body_text :: "string option"
    \<comment> \<open>\<open>page.inner_text("body", timeout=2000)\<close>; \<open>None\<close> when it times out\<close>
  page_url :: string
  collect_fault :: "failure option"
    \<comment> \<open>an exception out of \<open>collect_variant_groups\<close>\<close>
  found_groups :: "variant_group list"
    \<comment> \<open>what \<open>collect_variant_groups(page)\<close> returns\<close>
  settle_fault :: "failure option"
    \<comment> \<open>an exception, other than the timeouts caught in place, out of the waits after selection\<close>
  first_evaluate :: "failure + string option"
  second_evaluate :: "failure + string option"

definition detect_challenge :: "page_visit \<Rightarrow> bool" where
  "detect_challenge page =
     (let main_text = (case body_text page of None \<Rightarrow> [] | Some t \<Rightarrow> lower t)
      in if list_ex (\<lambda>marker. is_in marker main_text) CHALLENGE_MARKERS_LOWER then True
         else if page_url page \<noteq> [] \<and> is_in ''splashui/challenge'' (page_url page) then True
         else False)"

definition dimensions_with_group ::
  "variant_group list \<Rightarrow> variant_record \<Rightarrow> (nat \<times> string \<times> string) list" where
  \<comment> \<open>Lines 913 to 936: the list \<open>dimensions_with_group\<close> after its sort.  Both calls of
      \<open>find_group_for_dimension\<close> pass \<open>set()\<close>.\<close>
  "dimensions_with_group groups record =
     sort_key fst
       ((if truthy (variation record)
         then (case find_group_for_dimension groups ''variation'' {} of
                 Some group_idx \<Rightarrow> [(group_idx, ''variation'', the (variation record))]
               | None \<Rightarrow> [])
         else [])
        @ (if truthy (size_value record)
           then (case find_group_for_dimension groups ''size'' {} of
                   Some group_idx \<Rightarrow> [(group_idx, ''size'', the (size_value record))]
                 | None \<Rightarrow> [])
           else []))"

definition DISABLED_KEYWORDS :: "string list" where
  "DISABLED_KEYWORDS = [''out of stock'', ''disabled'', ''aria-disabled'']"

fun run_selections ::
  "variant_group list \<Rightarrow> nat set \<Rightarrow> (nat \<times> string \<times> string) list \<Rightarrow> (nat \<times> string \<times> string) list
     \<Rightarrow> failure + ((string \<times> string option) option \<times> (nat \<times> string \<times> string) list)" where
  \<comment> \<open>\<open>for group_idx, dim_type, dim_value in dimensions_with_group\<close>.  \<open>calls\<close> logs the calls
      of \<open>select_option_from_group\<close> made so far.  The result is \<open>Some (availability,
      error_message)\<close> when a selection failed, \<open>None\<close> when every one succeeded, with the log.\<close>
  "run_selections groups used_indices [] calls = Inr (None, calls)"
| "run_selections groups used_indices ((group_idx, dim_type, dim_value) # rest) calls =
     (if group_idx \<in> used_indices then run_selections groups used_indices rest calls
      else
        (case select_option_from_group (groups ! group_idx) dim_value of
           Inl exc \<Rightarrow> Inl exc
         | Inr (ok, failure_reason) \<Rightarrow>
             if \<not> ok then
               (let reason_lower = lower (case failure_reason of None \<Rightarrow> [] | Some r \<Rightarrow> r)
                in Inr (Some (if list_ex (\<lambda>keyword. is_in keyword reason_lower) DISABLED_KEYWORDS
                              then ''OUT_OF_STOCK'' else ''ERROR'', failure_reason),
                        calls @ [(group_idx, dim_type, dim_value)]))
             else run_selections groups (insert group_idx used_indices) rest
                    (calls @ [(group_idx, dim_type, dim_value)])))"

definition chromium_attempt ::
  "variant_record \<Rightarrow> page_visit
     \<Rightarrow> failure + ((string \<times> string option) \<times> (nat \<times> string \<times> string) list)" where
  \<comment> \<open>The body of \<open>try\<close> in one pass of the retry loop: an exception, or the \<open>availability\<close> and
      \<open>error_message\<close> it breaks out with, and the selection calls it made.\<close>
  "chromium_attempt record page =
     (case goto_fault page of
        Some exc \<Rightarrow> Inl exc
      | None \<Rightarrow>
          if detect_challenge page then Inl (ChallengeDetected ''Bot challenge page encountered'')
          else
            (case collect_fault page of
               Some exc \<Rightarrow> Inl exc
             | None \<Rightarrow>
                 (case run_selections (found_groups page) {}
                         (dimensions_with_group (found_groups page) record) [] of
                    Inl exc \<Rightarrow> Inl exc
                  | Inr (Some verdict, calls) \<Rightarrow> Inr (verdict, calls)
                  | Inr (None, calls) \<Rightarrow>
                      (case settle_fault page of
                         Some exc \<Rightarrow> Inl exc
                       | None \<Rightarrow>
                           (case evaluate_availability (first_evaluate page) (second_evaluate page) of
                              (availability, availability_detail) \<Rightarrow>
                                Inr ((availability,
                                      if availability = ''OUT_OF_STOCK'' \<and> truthy availability_detail
                                      then availability_detail else None), calls))))))"

section \<open>Challenge and retry controller, interactive mode\<close>

function chromium_attempts ::
  "variant_record \<Rightarrow> (nat \<Rightarrow> page_visit) \<Rightarrow> int \<Rightarrow> int \<Rightarrow> string \<Rightarrow> string option
     \<Rightarrow> string \<times> string option \<times> int" where
  \<comment> \<open>\<open>while attempts <= max_retries\<close>; \<open>visits k\<close> is the page that pass \<open>k\<close> loads.\<close>
  "chromium_attempts record visits max_retries attempts availability error =
     (if attempts \<le> max_retries then
        (case chromium_attempt record (visits (nat attempts)) of
           Inr ((status, detail), calls) \<Rightarrow> (status, detail, attempts + 1)
         | Inl (ChallengeDetected msg) \<Rightarrow>
             chromium_attempts record visits max_retries (attempts + 1) ''BLOCKED'' (Some msg)
         | Inl (PlaywrightTimeoutError msg) \<Rightarrow>
             chromium_attempts record visits max_retries (attempts + 1) ''ERROR''
               (Some (''Timeout: '' @ msg))
         | Inl (OtherException msg) \<Rightarrow>
             chromium_attempts record visits max_retries (attempts + 1) ''ERROR'' (Some msg))
      else (availability, error, attempts))"
  by pat_completeness auto
termination
  by (relation "measure (\<lambda>(record, visits, max_retries, attempts, availability, error).
                           nat (max_retries + 1 - attempts))") auto



section \<open>Notions for the proofs and concrete inputs\<close>

definition row_listing_url :: "urllib \<Rightarrow> sheet_row \<Rightarrow> string" where
  \<comment> \<open>\<open>base_url\<close> of a row, as the loop body computes it\<close>
  "row_listing_url U row = strip_query_fragment U (strip (cell_str (listing_url_cell row)))"

definition plain_urllib :: urllib where
  \<comment> \<open>What \<open>urllib.parse\<close> gives on a URL of the shape \<open>https://host/path?query\<close> without
      percent escapes: the text before \<open>?\<close> and \<open>#\<close>, the path after the host, and the
      non-blank values of the query parameter \<open>var\<close>.\<close>
  "plain_urllib =
     \<lparr> strip_query_fragment = takeWhile (\<lambda>c. c \<noteq> CHR ''?'' \<and> c \<noteq> CHR ''#''),
       url_path = (\<lambda>u. dropWhile (\<lambda>c. c \<noteq> CHR ''/'')
                          (takeWhile (\<lambda>c. c \<noteq> CHR ''?'' \<and> c \<noteq> CHR ''#'') (drop 8 u))),
       query_var = (\<lambda>u. case filter (\<lambda>v. v \<noteq> [])
                                  (map (drop 4)
                                     (filter (prefix ''var='')
                                        (split_on CHR ''&''
                                           (takeWhile (\<lambda>c. c \<noteq> CHR ''#'')
                                              (drop 1 (dropWhile (\<lambda>c. c \<noteq> CHR ''?'')
                                                         (takeWhile (\<lambda>c. c \<noteq> CHR ''#'') u))))))) of
                          [] \<Rightarrow> None
                        | vs \<Rightarrow> Some vs) \<rparr>"

definition feed_row :: "string \<Rightarrow> cell \<Rightarrow> cell \<Rightarrow> cell \<Rightarrow> sheet_row" where
  \<comment> \<open>A sheet row with a listing link, a colour cell, a dimensions cell and a pack/type cell.\<close>
  "feed_row link colour dims pack =
     \<lparr> listing_url_cell = Text link, variation_cell = colour, pack_type_cell = pack,
       dimensions_cell = dims, sheet_stock_status_cell = NaN, stock_name_cell = NaN,
       sr_no_cell = NaN, item_number_cell = NaN \<rparr>"

definition unavailable_html :: string where
  \<comment> \<open>A page whose only stock signal is \<open>"availability":"UNAVAILABLE"\<close> inside an attribute.\<close>
  "unavailable_html =
     ''<b data-s={'' @ AVAILABILITY_TOKEN @ [CHR 0x22] @ ''UNAVAILABLE'' @ [CHR 0x22] @ ''}>''"

definition bare_parser :: "string \<Rightarrow> soup" where
  \<comment> \<open>The parse of a document without \<open>ld+json\<close> scripts and without text.\<close>
  "bare_parser html = \<lparr> ld_json_scripts = [], get_text = [] \<rparr>"

definition table_ok :: "(string \<rightharpoonup> string) \<Rightarrow> bool" where
  \<comment> \<open>What holds of \<open>last_variation_by_listing\<close> all along: it stores non-empty colours.\<close>
  "table_ok t = (\<forall>u v. t u = Some v \<longrightarrow> v \<noteq> [])"

definition green_cream_feed :: "sheet_row list" where
  \<comment> \<open>Three rows of one listing: the colour stated on the first row only.\<close>
  "green_cream_feed =
     [feed_row ''https://www.ebay.co.uk/itm/123?var=1'' (Text ''Green Cream - Greekey'')
        (Text ''40 x 60 cm'') NaN,
      feed_row ''https://www.ebay.co.uk/itm/123?var=2'' NaN (Text ''60 x 110 cm'') NaN,
      feed_row ''https://www.ebay.co.uk/itm/123?var=3'' NaN (Text ''80 x 150 cm'') NaN]"

definition interleaved_feed :: "sheet_row list" where
  \<comment> \<open>Two listings whose rows alternate; listing 1 states a second colour on its third row.\<close>
  "interleaved_feed =
     [feed_row ''https://e.uk/itm/1?var=1'' (Text ''Red'') (Text ''S'') NaN,
      feed_row ''https://e.uk/itm/2?var=1'' (Text ''Blue'') (Text ''S'') NaN,
      feed_row ''https://e.uk/itm/1?var=2'' NaN (Text ''M'') NaN,
      feed_row ''https://e.uk/itm/1?var=3'' (Text ''Green'') (Text ''L'') NaN,
      feed_row ''https://e.uk/itm/2?var=2'' NaN (Text ''M'') NaN,
      feed_row ''https://e.uk/itm/1?var=4'' NaN (Text ''XL'') NaN]"

definition descriptor :: "int \<Rightarrow> string \<Rightarrow> string option \<Rightarrow> string option \<Rightarrow> variant_record" where
  \<comment> \<open>A descriptor of row \<open>idx\<close> with a source URL, a colour and a size.\<close>
  "descriptor idx url colour sz =
     \<lparr> row_index = idx, excel_row = idx + 2, source_url = url, sr_no = NaN, stock_name = None,
       variation = colour, size_value = sz, dimensions = sz, sheet_stock_status = None,
       item_number = None, listing_url = strip_query_fragment plain_urllib url \<rparr>"

definition two_descriptors :: "variant_record list" where
  "two_descriptors =
     [descriptor 1 ''https://e.uk/itm/1?var=1'' (Some ''Red'') (Some ''S''),
      descriptor 2 ''https://e.uk/itm/2?var=1'' (Some ''Blue'') (Some ''M'')]"

definition text_parser :: "string \<Rightarrow> soup" where
  \<comment> \<open>The parse of a document that is nothing but text.\<close>
  "text_parser html = \<lparr> ld_json_scripts = [], get_text = html \<rparr>"

definition captcha_first :: "nat \<Rightarrow> nat \<Rightarrow> http_reply" where
  \<comment> \<open>A session that answers every GET for the first record with a challenge page.\<close>
  "captcha_first i k =
     (if i = 0 then Response 200 ''Please solve the captcha'' else Response 200 ''In stock'')"


definition popup_option :: "string \<Rightarrow> string option \<Rightarrow> dom_option" where
  \<comment> \<open>An option of a popup control with its text and its \<open>class\<close> attribute.\<close>
  "popup_option text cls =
     \<lparr> inner_text = text, data_sku_value_name = Some text, class_attr = cls,
       aria_disabled = None, disabled_attr = None, value_attr = None, click_times_out = False \<rparr>"

definition popup_group :: "string \<Rightarrow> dom_option list \<Rightarrow> variant_group" where
  "popup_group l opts =
     \<lparr> label = l, gtype = ''vim'', button_present = True, group_options = opts,
       driver_fault = None \<rparr>"

definition loaded_page :: "variant_group list \<Rightarrow> page_visit" where
  \<comment> \<open>A listing page that loads without incident and reports \<open>In stock\<close> once probed.\<close>
  "loaded_page groups =
     \<lparr> goto_fault = None, body_text = Some ''Rugs for sale'', page_url = ''https://e.uk/itm/1'',
       collect_fault = None, found_groups = groups, settle_fault = None,
       first_evaluate = Inr (Some ''In stock''), second_evaluate = Inr None \<rparr>"

definition green_cream_descriptor :: variant_record where
  "green_cream_descriptor =
     descriptor 1 ''https://e.uk/itm/1?var=1'' (Some ''Green Cream - Greekey'') (Some ''60 x 110 cm'')"

definition disabled_colour_page :: page_visit where
  \<comment> \<open>The colour wanted is listed with the disabled class.\<close>
  "disabled_colour_page =
     loaded_page
       [popup_group ''Colour''
          [popup_option ''Green Cream - Greekey'' (Some ''listbox__option listbox__option--disabled'')],
        popup_group ''Size'' [popup_option ''60 x 110 cm'' (Some ''listbox__option'')]]"

definition missing_colour_page :: page_visit where
  \<comment> \<open>The colour wanted is not listed.\<close>
  "missing_colour_page =
     loaded_page
       [popup_group ''Colour'' [popup_option ''Beige'' (Some ''listbox__option'')],
        popup_group ''Size'' [popup_option ''60 x 110 cm'' (Some ''listbox__option'')]]"

definition colour_pack_groups :: "variant_group list" where
  \<comment> \<open>Two groups, of which only the first has a label with a keyword.\<close>
  "colour_pack_groups =
     [popup_group ''Colour'' [popup_option ''Green Cream - Greekey'' (Some ''listbox__option'')],
      popup_group ''Pack'' [popup_option ''60 x 110 cm'' (Some ''listbox__option'')]]"


definition native_option :: "string \<Rightarrow> string option \<Rightarrow> dom_option" where
  \<comment> \<open>An \<open>option\<close> element of a native list control with its text and its \<open>disabled\<close>
      attribute.\<close>
  "native_option shown disabled =
     \<lparr> inner_text = shown, data_sku_value_name = None, class_attr = None,
       aria_disabled = None, disabled_attr = disabled, value_attr = Some shown,
       click_times_out = False \<rparr>"

definition native_group :: "string \<Rightarrow> dom_option list \<Rightarrow> variant_group" where
  "native_group l opts =
     \<lparr> label = l, gtype = ''select'', button_present = False, group_options = opts,
       driver_fault = None \<rparr>"

definition marked_native_page :: page_visit where
  \<comment> \<open>Native list controls; the colour wanted is listed with \<open>out of stock\<close> in its label,
      the disabled class and \<open>aria-disabled = true\<close>, and without the \<open>disabled\<close>
      attribute.\<close>
  "marked_native_page =
     loaded_page
       [native_group ''Colour''
          [(native_option ''Green Cream - Greekey (out of stock)'' None)
             \<lparr> class_attr := Some ''listbox__option--disabled'', aria_disabled := Some ''true'' \<rparr>],
        native_group ''Size'' [native_option ''60 x 110 cm'' None]]"

definition disabled_native_page :: page_visit where
  \<comment> \<open>Native list controls; the colour wanted has the \<open>disabled\<close> attribute.\<close>
  "disabled_native_page =
     loaded_page
       [native_group ''Colour'' [native_option ''Green Cream - Greekey'' (Some [])],
        native_group ''Size'' [native_option ''60 x 110 cm'' None]]"

definition no_button_page :: page_visit where
  \<comment> \<open>The colour group has neither a native list nor a popup button.\<close>
  "no_button_page =
     loaded_page
       [(popup_group ''Colour'' [popup_option ''Green Cream - Greekey'' (Some ''listbox__option'')])
          \<lparr> button_present := False \<rparr>,
        popup_group ''Size'' [popup_option ''60 x 110 cm'' (Some ''listbox__option'')]]"

definition slow_click_page :: page_visit where
  \<comment> \<open>The colour wanted is listed and enabled, and the click on it times out.\<close>
  "slow_click_page =
     loaded_page
       [popup_group ''Colour''
          [(popup_option ''Green Cream - Greekey'' (Some ''listbox__option''))
             \<lparr> click_times_out := True \<rparr>],
        popup_group ''Size'' [popup_option ''60 x 110 cm'' (Some ''listbox__option'')]]"

definition sold_blue_descriptor :: variant_record where
  \<comment> \<open>A descriptor whose colour label itself holds the words \<open>out of stock\<close>.\<close>
  "sold_blue_descriptor =
     descriptor 1 ''https://e.uk/itm/1?var=1'' (Some ''Blue (out of stock)'') (Some ''60 x 110 cm'')"

definition disabled_bay_descriptor :: variant_record where
  \<comment> \<open>A descriptor whose colour label itself holds the word \<open>disabled\<close>.\<close>
  "disabled_bay_descriptor =
     descriptor 1 ''https://e.uk/itm/1?var=1'' (Some ''Disabled Bay'') (Some ''60 x 110 cm'')"

definition slow_bay_page :: page_visit where
  \<comment> \<open>The colour \<open>Disabled Bay\<close> is listed and enabled, and the click on it times out.\<close>
  "slow_bay_page =
     loaded_page
       [popup_group ''Colour''
          [(popup_option ''Disabled Bay'' (Some ''listbox__option''))
             \<lparr> click_times_out := True \<rparr>],
        popup_group ''Size'' [popup_option ''60 x 110 cm'' (Some ''listbox__option'')]]"

section \<open>Label normalizer: base colours and matching\<close>

lemma script_extract_base_colour_pink:
  "script_extract_base_colour ''GelBack-Pink'' = ''pink'' \<and>
   script_extract_base_colour ''Gel Back-Pink'' = ''pink'' \<and>
   script_extract_base_colour ''GelBack Pink'' = ''pink'' \<and>
   script_extract_base_colour ''Pink - Gel Back 59'' = ''pink''"
  by code_simp

text \<open>
  Claim C4: \<open>extract_base_colour\<close> should map \<open>GelBack-Pink\<close>, \<open>Gel Back-Pink\<close>,
  \<open>GelBack Pink\<close> and \<open>Pink - Gel Back 59\<close> to the one base colour \<open>pink\<close>.  The scraper's
  function only cuts a trailing \<open>" - ..."\<close> suffix: of the four inputs only the last one
  becomes \<open>pink\<close>, the three prefixed labels keep their prefix.  The function of the same
  name in \<open>test_colour_matching.py\<close> strips the prefixes
  (\<open>script_extract_base_colour_pink\<close>).
\<close>

theorem extract_base_colour_prefix_kept:
  "extract_base_colour ''GelBack-Pink'' = ''gelback-pink'' \<and>
   extract_base_colour ''Gel Back-Pink'' = ''gel back-pink'' \<and>
   extract_base_colour ''GelBack Pink'' = ''gelback pink'' \<and>
   extract_base_colour ''Pink - Gel Back 59'' = ''pink''"
  by code_simp


text \<open>
  The size tier runs when the option text is size-shaped (it holds \<open>cm\<close>, or an \<open>x\<close>
  and a digit), whatever the target looks like, where the colour tier asks either string
  for its mark.  So a pair of which exactly one string is size-shaped can match in one
  direction only, also when neither string contains the other.
\<close>

lemma size_tier_asks_option_only:
  "option_matches ''120 (4 ft x 2 ft)'' ''120 (large)''
   \<and> \<not> option_matches ''120 (large)'' ''120 (4 ft x 2 ft)''
   \<and> \<not> is_in (normalize_label ''120 (4 ft x 2 ft)'') (normalize_label ''120 (large)'')
   \<and> \<not> is_in (normalize_label ''120 (large)'') (normalize_label ''120 (4 ft x 2 ft)'')
   \<and> extract_base_size ''120 (4 ft x 2 ft)'' = extract_base_size ''120 (large)''"
  by code_simp



section \<open>Variant descriptor builder: the size of a row\<close>

lemma resolve_size_is_or: "resolve_size dims pack_type = py_or dims pack_type"
  by (auto simp: resolve_size_def py_or_def Let_def)

text \<open>
  Claim C7: a row whose dimensions cell holds a placeholder and whose pack/type cell holds
  a concrete value should resolve its size to the pack/type value.  The loader assigns
  \<open>dimensions\<close> again where the fallback is meant, so the placeholder stays: with
  dimensions \<open>Rug\<close> and pack/type \<open>60 x 110 cm\<close> the size of the descriptor is \<open>Rug\<close>.
  The placeholder test changes nothing at all (\<open>resolve_size_is_or\<close>).
\<close>

theorem placeholder_dimensions_kept:
  "map size_value
     (load_variants_from_excel plain_urllib
        [feed_row ''https://www.ebay.co.uk/itm/123?var=5'' NaN (Text ''Rug'') (Text ''60 x 110 cm'')]
        None (Some 1))
   = [Some ''Rug'']"
  by code_simp

section \<open>Static availability detector: the token scan\<close>

lemma is_in_sublist: "is_in sub s = sublist sub s"
proof (induction s)
  case Nil
  show ?case by simp
next
  case (Cons c cs)
  show ?case by (simp only: is_in.simps sublist_Cons_right Cons.IH)
qed

lemma is_in_append: "is_in (p @ sub) s \<Longrightarrow> is_in sub s"
proof -
  assume "is_in (p @ sub) s"
  then obtain ps ss where "s = ps @ (p @ sub) @ ss"
    unfolding is_in_sublist sublist_def by blast
  then have "s = (ps @ p) @ sub @ ss" by simp
  then show "is_in sub s" unfolding is_in_sublist sublist_def by blast
qed

lemma unavailable_has_available: "is_in ''UNAVAILABLE'' html \<Longrightarrow> is_in ''AVAILABLE'' html"
proof -
  have e: "''UNAVAILABLE'' = ''UN'' @ ''AVAILABLE''" by simp
  assume "is_in ''UNAVAILABLE'' html"
  then have "is_in (''UN'' @ ''AVAILABLE'') html" by (simp only: e)
  then show ?thesis by (rule is_in_append)
qed

lemma schema_has_token:
  "is_in ''http://schema.org/OutOfStock'' html \<Longrightarrow> is_in ''OutOfStock'' html"
proof -
  have e: "''http://schema.org/OutOfStock'' = ''http://schema.org/'' @ ''OutOfStock''" by simp
  assume "is_in ''http://schema.org/OutOfStock'' html"
  then have "is_in (''http://schema.org/'' @ ''OutOfStock'') html" by (simp only: e)
  then show ?thesis by (rule is_in_append)
qed

lemma token_scan_unavailable:
  assumes "is_in ''UNAVAILABLE'' html" and "\<not> is_in ''OutOfStock'' html"
  shows "find (\<lambda>(token, status). is_in token html) AVAILABILITY_STRINGS
           \<in> {Some (''http://schema.org/InStock'', ''IN_STOCK''), Some (''InStock'', ''IN_STOCK''),
               Some (''AVAILABLE'', ''IN_STOCK'')}"
proof -
  have a: "is_in ''AVAILABLE'' html" using assms(1) by (rule unavailable_has_available)
  have b: "\<not> is_in ''http://schema.org/OutOfStock'' html"
    using assms(2) schema_has_token by blast
  show ?thesis
    unfolding AVAILABILITY_STRINGS_def
    by (simp only: find.simps case_prod_conv a b assms(2) if_True if_False insert_iff simp_thms
             split: if_splits)
qed

text \<open>
  Every document that reaches the token scan with \<open>UNAVAILABLE\<close> in it, and without
  \<open>OutOfStock\<close>, is reported in stock: the scan follows the dictionary's order and
  \<open>AVAILABLE\<close>, a part of \<open>UNAVAILABLE\<close>, comes first.
\<close>

lemma detect_availability_unavailable:
  assumes "scan_scripts (ld_json_scripts (parser html)) = None"
    and "\<not> is_in ''out of stock'' (lower (get_text (parser html)))"
    and "\<not> is_in ''in stock'' (lower (get_text (parser html)))"
    and "\<not> is_in ''last one'' (lower (get_text (parser html)))"
    and "is_in AVAILABILITY_TOKEN html"
    and "is_in ''UNAVAILABLE'' html"
    and "\<not> is_in ''OutOfStock'' html"
  shows "detect_availability parser html = ''IN_STOCK''"
proof -
  from token_scan_unavailable [OF assms(6) assms(7)]
  obtain token where
    f: "find (\<lambda>(token, status). is_in token html) AVAILABILITY_STRINGS = Some (token, ''IN_STOCK'')"
    by blast
  show ?thesis
    unfolding detect_availability_def Let_def
    by (simp only: assms(1-5) f option.case if_True if_False simp_thms case_prod_conv)
qed

text \<open>
  Claim C8: a document without structured evidence and without a text marker, whose raw
  text holds \<open>"availability":\<close> and the token \<open>UNAVAILABLE\<close>, should be detected as
  \<open>OUT_OF_STOCK\<close>.  On such a document the detector answers \<open>IN_STOCK\<close>.
\<close>

theorem unavailable_token_reads_in_stock:
  "detect_availability bare_parser unavailable_html = ''IN_STOCK''"
  by code_simp

section \<open>Variant descriptor builder: the running colour of a listing\<close>

lemma clean_cell_value_nonempty: "clean_cell_value x = Some c \<Longrightarrow> c \<noteq> []"
  by (cases x) (auto simp: Let_def split: if_splits)

lemma build_record_explicit:
  assumes "clean_cell_value (variation_cell row) = Some c"
  shows "variation (fst (build_record U idx row h t)) = Some c"
    and "snd (build_record U idx row h t) = t(row_listing_url U row \<mapsto> c)"
  using assms clean_cell_value_nonempty [OF assms]
  by (simp_all add: build_record_def Let_def row_listing_url_def)

lemma build_record_adopt:
  assumes "clean_cell_value (variation_cell row) = None"
    and "t (row_listing_url U row) = Some c" and "c \<noteq> []"
  shows "variation (fst (build_record U idx row h t)) = Some c"
  using assms by (simp add: build_record_def Let_def row_listing_url_def)

lemma build_record_table_kept:
  assumes "clean_cell_value (variation_cell row) = None"
  shows "snd (build_record U idx row h t) = t"
  using assms by (simp add: build_record_def Let_def)

lemma table_ok_step: 
  assumes "table_ok t" shows "table_ok (snd (build_record U idx row h t))"
proof (cases "clean_cell_value (variation_cell row)")
  case None
  then show ?thesis using assms by (simp add: build_record_table_kept)
next
  case (Some c)
  then show ?thesis using assms clean_cell_value_nonempty [OF Some]
    by (simp add: build_record_explicit(2) table_ok_def)
qed

lemma load_loop_step:
  assumes "start_row \<le> idx"
  shows "load_loop U None start_row idx (row # rows) recs hist t
         = load_loop U None start_row (idx + 1) rows
             (recs @ [fst (build_record U idx row hist t)])
             (hist @ [fst (build_record U idx row hist t)])
             (snd (build_record U idx row hist t))"
  using assms by (simp add: split_beta)

lemma load_loop_prefix:
  assumes "start_row \<le> idx"
  shows "length (load_loop U None start_row idx rows recs hist t) = length recs + length rows
         \<and> (\<forall>i<length recs. load_loop U None start_row idx rows recs hist t ! i = recs ! i)"
  using assms
proof (induction rows arbitrary: idx recs hist t)
  case Nil
  show ?case by simp
next
  case (Cons row rows)
  have le: "start_row \<le> idx + 1" using Cons.prems by simp
  show ?case
    unfolding load_loop_step [OF Cons.prems]
    using Cons.IH [OF le] by (auto simp: nth_append)
qed

lemma load_loop_head:
  assumes "start_row \<le> idx"
  shows "load_loop U None start_row idx (row # rows) recs hist t ! length recs
         = fst (build_record U idx row hist t)"
proof -
  have le: "start_row \<le> idx + 1" using assms by simp
  show ?thesis
    unfolding load_loop_step [OF assms]
    using load_loop_prefix [OF le, of U rows "recs @ [fst (build_record U idx row hist t)]"]
    by (simp add: nth_append)
qed

lemma load_loop_tail:
  assumes "start_row \<le> idx"
  shows "load_loop U None start_row idx (row # rows) recs hist t ! (length recs + Suc k)
         = load_loop U None start_row (idx + 1) rows
             (recs @ [fst (build_record U idx row hist t)])
             (hist @ [fst (build_record U idx row hist t)])
             (snd (build_record U idx row hist t))
           ! (length (recs @ [fst (build_record U idx row hist t)]) + k)"
  unfolding load_loop_step [OF assms] by simp

lemma load_loop_explicit:
  assumes "start_row \<le> idx" and "k < length rows"
    and "clean_cell_value (variation_cell (rows ! k)) = Some c"
  shows "variation (load_loop U None start_row idx rows recs hist t ! (length recs + k)) = Some c"
  using assms
proof (induction rows arbitrary: idx recs hist t k)
  case Nil
  then show ?case by simp
next
  case (Cons row rows)
  have le: "start_row \<le> idx + 1" using Cons.prems(1) by simp
  show ?case
  proof (cases k)
    case 0
    then show ?thesis
      using Cons.prems(3) load_loop_head [OF Cons.prems(1), of U row rows recs hist t]
      by (simp add: build_record_explicit(1))
  next
    case (Suc k')
    then have "k' < length rows" and "clean_cell_value (variation_cell (rows ! k')) = Some c"
      using Cons.prems by simp_all
    from Cons.IH [OF le this] show ?thesis
      unfolding Suc load_loop_tail [OF Cons.prems(1)] .
  qed
qed

lemma load_loop_table:
  assumes "start_row \<le> idx" and "table_ok t" and "k < length rows"
    and "clean_cell_value (variation_cell (rows ! k)) = None"
    and "\<forall>i<k. row_listing_url U (rows ! i) = row_listing_url U (rows ! k)
                \<longrightarrow> clean_cell_value (variation_cell (rows ! i)) = None"
    and "t (row_listing_url U (rows ! k)) = Some c"
  shows "variation (load_loop U None start_row idx rows recs hist t ! (length recs + k)) = Some c"
  using assms
proof (induction rows arbitrary: idx recs hist t k)
  case Nil
  then show ?case by simp
next
  case (Cons row rows)
  have le: "start_row \<le> idx + 1" using Cons.prems(1) by simp
  show ?case
  proof (cases k)
    case 0
    have "c \<noteq> []" using Cons.prems(2,6) by (auto simp: table_ok_def)
    then show ?thesis
      using 0 Cons.prems(4,6) load_loop_head [OF Cons.prems(1), of U row rows recs hist t]
      by (simp add: build_record_adopt)
  next
    case (Suc k')
    let ?t' = "snd (build_record U idx row hist t)"
    have k': "k' < length rows" using Cons.prems(3) Suc by simp
    have none: "clean_cell_value (variation_cell (rows ! k')) = None"
      using Cons.prems(4) Suc by simp
    have between: "\<forall>i<k'. row_listing_url U (rows ! i) = row_listing_url U (rows ! k')
                \<longrightarrow> clean_cell_value (variation_cell (rows ! i)) = None"
    proof (intro allI impI)
      fix i assume "i < k'" and "row_listing_url U (rows ! i) = row_listing_url U (rows ! k')"
      then show "clean_cell_value (variation_cell (rows ! i)) = None"
        using Cons.prems(5) Suc by (auto dest: spec [of _ "Suc i"])
    qed
    have look: "?t' (row_listing_url U (rows ! k')) = Some c"
    proof (cases "clean_cell_value (variation_cell row)")
      case None
      then show ?thesis using Cons.prems(6) Suc by (simp add: build_record_table_kept)
    next
      case (Some c')
      have "row_listing_url U row \<noteq> row_listing_url U (rows ! k')"
        using Cons.prems(5) Suc Some by (auto dest: spec [of _ 0])
      then show ?thesis using Cons.prems(6) Suc Some by (simp add: build_record_explicit(2))
    qed
    from Cons.IH [OF le table_ok_step [OF Cons.prems(2)] k' none between look]
    show ?thesis unfolding Suc load_loop_tail [OF Cons.prems(1)] .
  qed
qed

lemma load_loop_earlier:
  assumes "start_row \<le> idx" and "table_ok t" and "j < k" and "k < length rows"
    and "row_listing_url U (rows ! j) = row_listing_url U (rows ! k)"
    and "clean_cell_value (variation_cell (rows ! j)) = Some c"
    and "clean_cell_value (variation_cell (rows ! k)) = None"
    and "\<forall>i. j < i \<and> i < k \<and> row_listing_url U (rows ! i) = row_listing_url U (rows ! k)
                \<longrightarrow> clean_cell_value (variation_cell (rows ! i)) = None"
  shows "variation (load_loop U None start_row idx rows recs hist t ! (length recs + k)) = Some c"
  using assms
proof (induction rows arbitrary: idx recs hist t j k)
  case Nil
  then show ?case by simp
next
  case (Cons row rows)
  have le: "start_row \<le> idx + 1" using Cons.prems(1) by simp
  let ?t' = "snd (build_record U idx row hist t)"
  have ok': "table_ok ?t'" by (rule table_ok_step [OF Cons.prems(2)])
  obtain k' where k: "k = Suc k'" using Cons.prems(3) by (cases k) auto
  have k': "k' < length rows" using Cons.prems(4) k by simp
  have none: "clean_cell_value (variation_cell (rows ! k')) = None"
    using Cons.prems(7) k by simp
  show ?case
  proof (cases j)
    case 0
    have expl: "clean_cell_value (variation_cell row) = Some c" using Cons.prems(6) 0 by simp
    have same: "row_listing_url U row = row_listing_url U (rows ! k')"
      using Cons.prems(5) 0 k by simp
    have look: "?t' (row_listing_url U (rows ! k')) = Some c"
      using expl same by (simp add: build_record_explicit(2))
    have between: "\<forall>i<k'. row_listing_url U (rows ! i) = row_listing_url U (rows ! k')
                \<longrightarrow> clean_cell_value (variation_cell (rows ! i)) = None"
    proof (intro allI impI)
      fix i assume "i < k'" and "row_listing_url U (rows ! i) = row_listing_url U (rows ! k')"
      then show "clean_cell_value (variation_cell (rows ! i)) = None"
        using Cons.prems(8) 0 k by (auto dest: spec [of _ "Suc i"])
    qed
    from load_loop_table [OF le ok' k' none between look]
    show ?thesis unfolding k load_loop_tail [OF Cons.prems(1)] .
  next
    case (Suc j')
    have jk: "j' < k'" using Cons.prems(3) Suc k by simp
    have same: "row_listing_url U (rows ! j') = row_listing_url U (rows ! k')"
      using Cons.prems(5) Suc k by simp
    have expl: "clean_cell_value (variation_cell (rows ! j')) = Some c"
      using Cons.prems(6) Suc by simp
    have between: "\<forall>i. j' < i \<and> i < k' \<and> row_listing_url U (rows ! i) = row_listing_url U (rows ! k')
                \<longrightarrow> clean_cell_value (variation_cell (rows ! i)) = None"
    proof (intro allI impI)
      fix i assume "j' < i \<and> i < k' \<and> row_listing_url U (rows ! i) = row_listing_url U (rows ! k')"
      then show "clean_cell_value (variation_cell (rows ! i)) = None"
        using Cons.prems(8) Suc k by (auto dest: spec [of _ "Suc i"])
    qed
    from Cons.IH [OF le ok' jk k' same expl none between]
    show ?thesis unfolding k load_loop_tail [OF Cons.prems(1)] .
  qed
qed

text \<open>
  Claim C1: for every feed of three rows that share one listing URL, the first with the
  colour \<open>Green Cream - Greekey\<close> and the other two with an empty colour cell (whatever
  their sizes and other cells, so in particular with the sizes \<open>40 x 60 cm\<close>,
  \<open>60 x 110 cm\<close> and \<open>80 x 150 cm\<close>), \<open>load_variants_from_excel\<close> with its default
  arguments returns three descriptors whose \<open>variation\<close> is \<open>Green Cream - Greekey\<close>: the
  stated colour becomes the running colour of the listing and a row without a colour
  adopts it.
\<close>

theorem green_cream_block:
  assumes "notna (listing_url_cell r1)" and "notna (listing_url_cell r2)"
    and "notna (listing_url_cell r3)"
    and "row_listing_url U r2 = row_listing_url U r1"
    and "row_listing_url U r3 = row_listing_url U r1"
    and "variation_cell r1 = Text ''Green Cream - Greekey''"
    and "clean_cell_value (variation_cell r2) = None"
    and "clean_cell_value (variation_cell r3) = None"
  shows "map variation (load_variants_from_excel U [r1, r2, r3] None (Some 1))
         = [Some ''Green Cream - Greekey'', Some ''Green Cream - Greekey'',
            Some ''Green Cream - Greekey'']"
proof -
  let ?c = "''Green Cream - Greekey''"
  have "clean_cell_value (Text ?c) = Some ?c" by code_simp
  then have c1: "clean_cell_value (variation_cell r1) = Some ?c" using assms(6) by simp
  let ?b1 = "build_record U 1 r1 [] Map.empty"
  let ?b2 = "build_record U (1 + 1) r2 [fst ?b1] (snd ?b1)"
  let ?b3 = "build_record U (1 + 1 + 1) r3 [fst ?b1, fst ?b2] (snd ?b2)"
  have t1: "snd ?b1 = Map.empty(row_listing_url U r1 \<mapsto> ?c)"
    by (rule build_record_explicit(2) [OF c1])
  have "snd ?b2 = snd ?b1" by (rule build_record_table_kept [OF assms(7)])
  then have t2: "snd ?b2 = Map.empty(row_listing_url U r1 \<mapsto> ?c)" by (simp only: t1)
  have v1: "variation (fst ?b1) = Some ?c" by (rule build_record_explicit(1) [OF c1])
  have v2: "variation (fst ?b2) = Some ?c"
    by (rule build_record_adopt [OF assms(7)]) (simp_all add: t1 assms(4))
  have v3: "variation (fst ?b3) = Some ?c"
    by (rule build_record_adopt [OF assms(8)]) (simp_all only: t2 assms(5), simp_all)
  have "load_variants_from_excel U [r1, r2, r3] None (Some 1) = [fst ?b1, fst ?b2, fst ?b3]"
    unfolding load_variants_from_excel_def Let_def
    using assms(1-3) by (simp add: load_loop_step del: load_loop.simps(2))
  then show ?thesis using v1 v2 v3 by simp
qed

theorem green_cream_block_witness:
  "map variation (load_variants_from_excel plain_urllib green_cream_feed None (Some 1))
   = [Some ''Green Cream - Greekey'', Some ''Green Cream - Greekey'',
      Some ''Green Cream - Greekey'']"
proof -
  let ?r1 = "feed_row ''https://www.ebay.co.uk/itm/123?var=1'' (Text ''Green Cream - Greekey'')
        (Text ''40 x 60 cm'') NaN"
  let ?r2 = "feed_row ''https://www.ebay.co.uk/itm/123?var=2'' NaN (Text ''60 x 110 cm'') NaN"
  let ?r3 = "feed_row ''https://www.ebay.co.uk/itm/123?var=3'' NaN (Text ''80 x 150 cm'') NaN"
  have h1: "notna (listing_url_cell ?r1)" by (simp add: feed_row_def)
  have h2: "notna (listing_url_cell ?r2)" by (simp add: feed_row_def)
  have h3: "notna (listing_url_cell ?r3)" by (simp add: feed_row_def)
  have h4: "row_listing_url plain_urllib ?r2 = row_listing_url plain_urllib ?r1" by code_simp
  have h5: "row_listing_url plain_urllib ?r3 = row_listing_url plain_urllib ?r1" by code_simp
  have h6: "variation_cell ?r1 = Text ''Green Cream - Greekey''" by (simp add: feed_row_def)
  have h7: "clean_cell_value (variation_cell ?r2) = None" by (simp add: feed_row_def)
  have h8: "clean_cell_value (variation_cell ?r3) = None" by (simp add: feed_row_def)
  from green_cream_block [OF h1 h2 h3 h4 h5 h6 h7 h8] show ?thesis
    unfolding green_cream_feed_def .
qed

text \<open>
  Claim C10: the table of last seen colours is keyed by listing URL and lives for the whole
  feed.  With the default arguments the loader returns one descriptor for each row that has
  a listing link; a row that states a colour gets that colour; and a row without a colour
  gets the colour of the latest earlier row of the same listing URL that states one,
  whatever rows of other listings lie in between.  A later stated colour of the listing
  thereby replaces the earlier one for the rows that follow.
\<close>

theorem last_seen_colour_by_listing:
  "let df = filter (\<lambda>row. notna (listing_url_cell row)) rows;
       out = load_variants_from_excel U rows None (Some 1)
   in length out = length df
      \<and> (\<forall>k c. k < length df \<and> clean_cell_value (variation_cell (df ! k)) = Some c
             \<longrightarrow> variation (out ! k) = Some c)
      \<and> (\<forall>j k c. j < k \<and> k < length df
             \<and> row_listing_url U (df ! j) = row_listing_url U (df ! k)
             \<and> clean_cell_value (variation_cell (df ! j)) = Some c
             \<and> clean_cell_value (variation_cell (df ! k)) = None
             \<and> (\<forall>i. j < i \<and> i < k \<and> row_listing_url U (df ! i) = row_listing_url U (df ! k)
                    \<longrightarrow> clean_cell_value (variation_cell (df ! i)) = None)
             \<longrightarrow> variation (out ! k) = Some c)"
proof -
  define df where "df = filter (\<lambda>row. notna (listing_url_cell row)) rows"
  define out where "out = load_variants_from_excel U rows None (Some 1)"
  have out: "out = load_loop U None 1 1 df [] [] Map.empty"
    by (simp add: out_def df_def load_variants_from_excel_def)
  have le: "(1::int) \<le> 1" by simp
  have ok: "table_ok Map.empty" by (simp add: table_ok_def)
  have len: "length out = length df"
    using load_loop_prefix [OF le, of U df "[]" "[]" Map.empty] by (simp add: out)
  have expl: "variation (out ! k) = Some c"
    if "k < length df" and "clean_cell_value (variation_cell (df ! k)) = Some c" for k c
    using load_loop_explicit [OF le that, of U "[]" "[]" Map.empty] by (simp add: out)
  have adopt: "variation (out ! k) = Some c"
    if "j < k" and "k < length df"
      and "row_listing_url U (df ! j) = row_listing_url U (df ! k)"
      and "clean_cell_value (variation_cell (df ! j)) = Some c"
      and "clean_cell_value (variation_cell (df ! k)) = None"
      and "\<forall>i. j < i \<and> i < k \<and> row_listing_url U (df ! i) = row_listing_url U (df ! k)
                    \<longrightarrow> clean_cell_value (variation_cell (df ! i)) = None" for j k c
    using load_loop_earlier [OF le ok that, of "[]" "[]"] by (simp add: out)
  have "length out = length df
      \<and> (\<forall>k c. k < length df \<and> clean_cell_value (variation_cell (df ! k)) = Some c
             \<longrightarrow> variation (out ! k) = Some c)
      \<and> (\<forall>j k c. j < k \<and> k < length df
             \<and> row_listing_url U (df ! j) = row_listing_url U (df ! k)
             \<and> clean_cell_value (variation_cell (df ! j)) = Some c
             \<and> clean_cell_value (variation_cell (df ! k)) = None
             \<and> (\<forall>i. j < i \<and> i < k \<and> row_listing_url U (df ! i) = row_listing_url U (df ! k)
                    \<longrightarrow> clean_cell_value (variation_cell (df ! i)) = None)
             \<longrightarrow> variation (out ! k) = Some c)"
    using len expl adopt by blast
  then show ?thesis unfolding Let_def df_def out_def .
qed

theorem last_seen_colour_by_listing_witness:
  "variation (load_variants_from_excel plain_urllib interleaved_feed None (Some 1) ! 2) = Some ''Red''
   \<and> variation (load_variants_from_excel plain_urllib interleaved_feed None (Some 1) ! 3) = Some ''Green''
   \<and> variation (load_variants_from_excel plain_urllib interleaved_feed None (Some 1) ! 5) = Some ''Green''"
proof -
  let ?out = "load_variants_from_excel plain_urllib interleaved_feed None (Some 1)"
  have df: "filter (\<lambda>row. notna (listing_url_cell row)) interleaved_feed = interleaved_feed"
    by (simp add: interleaved_feed_def feed_row_def)
  note main = last_seen_colour_by_listing [of interleaved_feed plain_urllib, unfolded Let_def df]
  have len: "length interleaved_feed = 6" by (simp add: interleaved_feed_def)
  have c0: "clean_cell_value (variation_cell (interleaved_feed ! 0)) = Some ''Red''" by code_simp
  have c2: "clean_cell_value (variation_cell (interleaved_feed ! 2)) = None" by code_simp
  have c3: "clean_cell_value (variation_cell (interleaved_feed ! 3)) = Some ''Green''" by code_simp
  have c5: "clean_cell_value (variation_cell (interleaved_feed ! 5)) = None" by code_simp
  have u02: "row_listing_url plain_urllib (interleaved_feed ! 0)
             = row_listing_url plain_urllib (interleaved_feed ! 2)" by code_simp
  have u35: "row_listing_url plain_urllib (interleaved_feed ! 3)
             = row_listing_url plain_urllib (interleaved_feed ! 5)" by code_simp
  have u12: "row_listing_url plain_urllib (interleaved_feed ! 1)
             \<noteq> row_listing_url plain_urllib (interleaved_feed ! 2)" by code_simp
  have u45: "row_listing_url plain_urllib (interleaved_feed ! 4)
             \<noteq> row_listing_url plain_urllib (interleaved_feed ! 5)" by code_simp
  have b02: "\<forall>i. 0 < i \<and> i < 2
                 \<and> row_listing_url plain_urllib (interleaved_feed ! i)
                   = row_listing_url plain_urllib (interleaved_feed ! 2)
               \<longrightarrow> clean_cell_value (variation_cell (interleaved_feed ! i)) = None"
  proof (intro allI impI)
    fix i :: nat
    assume a: "0 < i \<and> i < 2
                 \<and> row_listing_url plain_urllib (interleaved_feed ! i)
                   = row_listing_url plain_urllib (interleaved_feed ! 2)"
    then have i: "i = 1" by arith
    show "clean_cell_value (variation_cell (interleaved_feed ! i)) = None"
      using a u12 unfolding i by blast
  qed
  have b35: "\<forall>i. 3 < i \<and> i < 5
                 \<and> row_listing_url plain_urllib (interleaved_feed ! i)
                   = row_listing_url plain_urllib (interleaved_feed ! 5)
               \<longrightarrow> clean_cell_value (variation_cell (interleaved_feed ! i)) = None"
  proof (intro allI impI)
    fix i :: nat
    assume a: "3 < i \<and> i < 5
                 \<and> row_listing_url plain_urllib (interleaved_feed ! i)
                   = row_listing_url plain_urllib (interleaved_feed ! 5)"
    then have i: "i = 4" by arith
    show "clean_cell_value (variation_cell (interleaved_feed ! i)) = None"
      using a u45 unfolding i by blast
  qed
  from main have adopt: "\<And>j k c. j < k \<Longrightarrow> k < length interleaved_feed
             \<Longrightarrow> row_listing_url plain_urllib (interleaved_feed ! j) = row_listing_url plain_urllib (interleaved_feed ! k)
             \<Longrightarrow> clean_cell_value (variation_cell (interleaved_feed ! j)) = Some c
             \<Longrightarrow> clean_cell_value (variation_cell (interleaved_feed ! k)) = None
             \<Longrightarrow> (\<forall>i. j < i \<and> i < k \<and> row_listing_url plain_urllib (interleaved_feed ! i) = row_listing_url plain_urllib (interleaved_feed ! k)
                    \<longrightarrow> clean_cell_value (variation_cell (interleaved_feed ! i)) = None)
             \<Longrightarrow> variation (?out ! k) = Some c"
    by blast
  from main have expl: "\<And>k c. k < length interleaved_feed
             \<Longrightarrow> clean_cell_value (variation_cell (interleaved_feed ! k)) = Some c
             \<Longrightarrow> variation (?out ! k) = Some c"
    by blast
  have r2: "variation (?out ! 2) = Some ''Red''"
    by (rule adopt [OF _ _ u02 c0 c2 b02]) (simp_all add: len)
  have r3: "variation (?out ! 3) = Some ''Green''"
    by (rule expl [OF _ c3]) (simp add: len)
  have r5: "variation (?out ! 5) = Some ''Green''"
    by (rule adopt [OF _ _ u35 c3 c5 b35]) (simp_all add: len)
  show ?thesis using r2 r3 r5 by simp
qed

section \<open>Static pipeline: statuses, retries and result rows\<close>










declare requests_attempts.simps [simp del]

lemma requests_attempts_done:
  "\<not> attempts \<le> max_retries \<Longrightarrow>
   requests_attempts parser replies url max_retries attempts availability error gets
   = (availability, error, attempts, gets)"
  by (simp add: requests_attempts.simps)

lemma challenge_message:
  "fetch_listing_html reply url = Inl (ChallengeDetected msg) \<Longrightarrow>
   msg = ''Bot challenge detected for '' @ url"
  by (auto simp: fetch_listing_html_def split: http_reply.splits if_splits)

lemma requests_attempts_challenged:
  assumes "\<forall>k. attempts \<le> int k \<and> int k \<le> max_retries
             \<longrightarrow> (\<exists>msg. fetch_listing_html (replies k) url = Inl (ChallengeDetected msg))"
    and "0 \<le> attempts" and "attempts \<le> max_retries"
  shows "requests_attempts parser replies url max_retries attempts availability error gets
         = (''BLOCKED'', Some (''Bot challenge detected for '' @ url), max_retries + 1,
            gets @ map (\<lambda>k. (k, url)) [nat attempts ..< nat (max_retries + 1)])"
  using assms
proof (induction parser replies url max_retries attempts availability error gets
       rule: requests_attempts.induct)
  case (1 parser replies url max_retries attempts availability error gets)
  have "attempts \<le> int (nat attempts) \<and> int (nat attempts) \<le> max_retries"
    using "1.prems"(2,3) by simp
  then obtain msg where
    f: "fetch_listing_html (replies (nat attempts)) url = Inl (ChallengeDetected msg)"
    using "1.prems"(1) by blast
  have msg: "msg = ''Bot challenge detected for '' @ url" by (rule challenge_message [OF f])
  have sg: "session_get replies (nat attempts) url gets = (replies (nat attempts), gets @ [(nat attempts, url)])"
    by (simp add: session_get_def)
  have step: "requests_attempts parser replies url max_retries attempts availability error gets
        = requests_attempts parser replies url max_retries (attempts + 1) ''BLOCKED'' (Some msg)
            (gets @ [(nat attempts, url)])"
    using "1.prems"(3) f by (subst requests_attempts.simps) (simp add: session_get_def)
  have lt: "nat attempts < nat (max_retries + 1)" using "1.prems"(2,3) by arith
  have suc: "Suc (nat attempts) = nat (attempts + 1)" using "1.prems"(2) by arith
  have range: "[nat attempts ..< nat (max_retries + 1)]
               = nat attempts # [nat (attempts + 1) ..< nat (max_retries + 1)]"
    by (simp only: upt_conv_Cons [OF lt] suc)
  show ?case
  proof (cases "attempts + 1 \<le> max_retries")
    case True
    have later: "\<forall>k. attempts + 1 \<le> int k \<and> int k \<le> max_retries
             \<longrightarrow> (\<exists>msg. fetch_listing_html (replies k) url = Inl (ChallengeDetected msg))"
      using "1.prems"(1) by auto
    have pos: "0 \<le> attempts + 1" using "1.prems"(2) by simp
    from "1.IH"(1) [OF "1.prems"(3) sg [symmetric] f refl later pos True] show ?thesis
      unfolding step range by simp
  next
    case False
    then have last: "attempts = max_retries" using "1.prems"(3) by simp
    show ?thesis unfolding step range using False msg last
      by (simp add: requests_attempts_done)
  qed
qed

lemma requests_attempts_first_ok:
  assumes "0 \<le> max_retries" and "fetch_listing_html (replies 0) url = Inr html"
  shows "requests_attempts parser replies url max_retries 0 availability error gets
         = (detect_availability parser html, None, 1, gets @ [(0, url)])"
  using assms by (subst requests_attempts.simps) (simp add: session_get_def)

lemma requests_rows_Cons:
  "requests_rows U parser replies max_retries i0 (d # rest)
   = (result_row U d
        (fst (requests_attempts parser (replies i0) (listing_url d) max_retries 0 ''BLOCKED'' None []))
        (fst (snd (requests_attempts parser (replies i0) (listing_url d) max_retries 0 ''BLOCKED'' None [])))
        (Some (source_url d))
      # fst (requests_rows U parser replies max_retries (Suc i0) rest),
      map (\<lambda>(k, url). (i0, k, url))
        (snd (snd (snd (requests_attempts parser (replies i0) (listing_url d) max_retries 0
                          ''BLOCKED'' None []))))
      @ snd (requests_rows U parser replies max_retries (Suc i0) rest))"
  by (simp add: split_beta)

lemma requests_rows_length:
  "length (fst (requests_rows U parser replies max_retries i0 records)) = length records"
  by (induction records arbitrary: i0) (simp_all add: requests_rows_Cons del: requests_rows.simps(2))

lemma requests_rows_nth:
  assumes "j < length records"
  shows "fst (requests_rows U parser replies max_retries i0 records) ! j
         = result_row U (records ! j)
             (fst (requests_attempts parser (replies (i0 + j)) (listing_url (records ! j))
                     max_retries 0 ''BLOCKED'' None []))
             (fst (snd (requests_attempts parser (replies (i0 + j)) (listing_url (records ! j))
                     max_retries 0 ''BLOCKED'' None [])))
             (Some (source_url (records ! j)))"
  using assms
proof (induction records arbitrary: i0 j)
  case Nil
  then show ?case by simp
next
  case (Cons d rest)
  show ?case
  proof (cases j)
    case 0
    then show ?thesis by (simp add: requests_rows_Cons del: requests_rows.simps(2))
  next
    case (Suc j')
    then have "j' < length rest" using Cons.prems by simp
    from Cons.IH [OF this, of "Suc i0"] show ?thesis
      using Suc by (simp add: requests_rows_Cons del: requests_rows.simps(2))
  qed
qed

lemma requests_rows_gets_from:
  "g \<in> set (snd (requests_rows U parser replies max_retries i0 records)) \<Longrightarrow> i0 \<le> fst g"
proof (induction records arbitrary: i0)
  case Nil
  then show ?case by simp
next
  case (Cons d rest)
  from Cons.prems have "fst g = i0
      \<or> g \<in> set (snd (requests_rows U parser replies max_retries (Suc i0) rest))"
    by (auto simp add: requests_rows_Cons simp del: requests_rows.simps(2))
  then show ?case using Cons.IH [of "Suc i0"] by auto
qed

lemma requests_rows_gets_of:
  assumes "j < length records"
  shows "filter (\<lambda>g. fst g = i0 + j) (snd (requests_rows U parser replies max_retries i0 records))
         = map (\<lambda>(k, url). (i0 + j, k, url))
             (snd (snd (snd (requests_attempts parser (replies (i0 + j)) (listing_url (records ! j))
                               max_retries 0 ''BLOCKED'' None []))))"
  using assms
proof (induction records arbitrary: i0 j)
  case Nil
  then show ?case by simp
next
  case (Cons d rest)
  have none: "filter (\<lambda>g. fst g = i0) (snd (requests_rows U parser replies max_retries (Suc i0) rest)) = []"
    using requests_rows_gets_from [of _ U parser replies max_retries "Suc i0" rest]
    by (fastforce simp: filter_empty_conv)
  show ?case
  proof (cases j)
    case 0
    have all: "filter (\<lambda>g. fst g = i0) (map (\<lambda>(k, url). (i0, k, url)) xs)
               = map (\<lambda>(k, url). (i0, k, url)) xs" for xs :: "(nat \<times> string) list"
      by (induction xs) auto
    show ?thesis using 0 none all
      by (simp add: requests_rows_Cons del: requests_rows.simps(2))
  next
    case (Suc j')
    then have j': "j' < length rest" using Cons.prems by simp
    have other: "filter (\<lambda>g. fst g = Suc (i0 + j')) (map (\<lambda>(k, url). (i0, k, url)) xs) = []"
      for xs :: "(nat \<times> string) list"
      by (induction xs) auto
    from Cons.IH [OF j', of "Suc i0"] show ?thesis
      using Suc other by (simp add: requests_rows_Cons del: requests_rows.simps(2))
  qed
qed

lemma requests_rows_fields:
  "map (\<lambda>r. (res_row_index r, res_excel_row r, res_listing_url r))
       (fst (requests_rows U parser replies max_retries i0 records))
   = map (\<lambda>d. (row_index d, excel_row d, listing_url d)) records"
  by (induction records arbitrary: i0)
     (simp_all add: requests_rows_Cons result_row_def del: requests_rows.simps(2))

lemma requests_attempts_log_extends:
  "\<exists>new. snd (snd (snd (requests_attempts parser replies url max_retries attempts availability
                            error gets))) = gets @ new"
proof (induction parser replies url max_retries attempts availability error gets
       rule: requests_attempts.induct)
  case (1 parser replies url max_retries attempts availability error gets)
  show ?case
  proof (cases "attempts \<le> max_retries")
    case False
    then show ?thesis by (simp add: requests_attempts_done)
  next
    case True
    have sg: "(replies (nat attempts), gets @ [(nat attempts, url)])
              = session_get replies (nat attempts) url gets"
      by (simp add: session_get_def)
    show ?thesis
    proof (cases "fetch_listing_html (replies (nat attempts)) url")
      case (Inr html)
      then show ?thesis using True
        by (subst requests_attempts.simps) (simp add: session_get_def)
    next
      case (Inl exc)
      show ?thesis
      proof (cases exc)
        case (ChallengeDetected msg)
        from "1.IH"(1) [OF True sg Inl ChallengeDetected] show ?thesis
          using True Inl ChallengeDetected
          by (subst requests_attempts.simps) (auto simp: session_get_def)
      next
        case (PlaywrightTimeoutError msg)
        from "1.IH"(2) [OF True sg Inl PlaywrightTimeoutError] show ?thesis
          using True Inl PlaywrightTimeoutError
          by (subst requests_attempts.simps) (auto simp: session_get_def)
      next
        case (OtherException msg)
        from "1.IH"(3) [OF True sg Inl OtherException] show ?thesis
          using True Inl OtherException
          by (subst requests_attempts.simps) (auto simp: session_get_def)
      qed
    qed
  qed
qed

lemma requests_attempts_first_get:
  assumes "0 \<le> max_retries"
  shows "(0, url) \<in> set (snd (snd (snd (requests_attempts parser replies url max_retries 0
                                          availability error []))))"
proof (cases "fetch_listing_html (replies 0) url")
  case (Inr html)
  then show ?thesis using assms
    by (subst requests_attempts.simps) (simp add: session_get_def)
next
  case (Inl exc)
  obtain a e where
    step: "requests_attempts parser replies url max_retries 0 availability error []
           = requests_attempts parser replies url max_retries 1 a e [(0, url)]"
    using assms Inl
    by (cases exc) (simp_all add: requests_attempts.simps [of _ _ _ _ 0] session_get_def)
  from requests_attempts_log_extends [of parser replies url max_retries 1 a e "[(0, url)]"]
  show ?thesis unfolding step by auto
qed

lemma requests_attempts_challenged_from_start:
  assumes "\<forall>k. int k \<le> max_retries
             \<longrightarrow> (\<exists>msg. fetch_listing_html (replies k) url = Inl (ChallengeDetected msg))"
  shows "requests_attempts parser replies url max_retries 0 ''BLOCKED'' None []
         = (''BLOCKED'',
            if 0 \<le> max_retries then Some (''Bot challenge detected for '' @ url) else None,
            if 0 \<le> max_retries then max_retries + 1 else 0,
            map (\<lambda>k. (k, url)) [0 ..< nat (1 + max_retries)])"
proof (cases "0 \<le> max_retries")
  case True
  have chal: "\<forall>k. 0 \<le> int k \<and> int k \<le> max_retries
             \<longrightarrow> (\<exists>msg. fetch_listing_html (replies k) url = Inl (ChallengeDetected msg))"
    using assms by simp
  have "nat (max_retries + 1) = nat (1 + max_retries)" by (simp add: add.commute)
  then show ?thesis
    using requests_attempts_challenged [OF chal _ True, of parser "''BLOCKED''" None "[]"] True
    by simp
next
  case False
  then show ?thesis by (simp add: requests_attempts_done)
qed

text \<open>
  Claim C3, as stated: a descriptor whose every fetch attempt raises \<open>ChallengeDetected\<close>
  is fetched exactly \<open>1 + max_retries\<close> times.  The retry budget is an integer of the
  command line, and the loop \<open>while attempts <= max_retries\<close> makes no attempt at all for a
  negative one: with \<open>max_retries = -2\<close> the log holds no GET for the descriptor, not
  \<open>1 + (-2)\<close> of them.
\<close>

theorem negative_budget_makes_no_attempt:
  "int (length (filter (\<lambda>g. fst g = 0)
                  (snd (process_variants_requests plain_urllib text_parser captcha_first
                          two_descriptors (- 2)))))
   \<noteq> 1 + (- 2)"
  by code_simp

text \<open>
  Claim C3, amended: for a descriptor whose every fetch attempt raises
  \<open>ChallengeDetected\<close>, the static pipeline issues the GETs of the passes
  \<open>0, ..., max_retries\<close> for its listing URL and no other, that is \<open>1 + max_retries\<close>
  of them when \<open>max_retries \<ge> -1\<close> and none for a smaller budget.  Its row has the status
  \<open>BLOCKED\<close>, with the message of the challenge as error detail when an attempt was made.
  The run goes on: it returns one row for each descriptor, in the order of the input; with
  \<open>max_retries \<ge> 0\<close> every descriptor is fetched, and a descriptor whose first fetch
  succeeds is fetched once and gets the status that \<open>detect_availability\<close> reads from
  that page, without error detail.
\<close>

theorem blocked_after_retries:
  assumes "i < length records"
    and "\<forall>k. int k \<le> max_retries \<longrightarrow>
           (\<exists>msg. fetch_listing_html (replies i k) (listing_url (records ! i))
                    = Inl (ChallengeDetected msg))"
  shows "case process_variants_requests U parser replies records max_retries of
           (results, gets) \<Rightarrow>
             filter (\<lambda>g. fst g = i) gets
               = map (\<lambda>k. (i, k, listing_url (records ! i))) [0 ..< nat (1 + max_retries)]
             \<and> detected_status (results ! i) = ''BLOCKED''
             \<and> error_message (results ! i)
                 = (if 0 \<le> max_retries
                    then Some (''Bot challenge detected for '' @ listing_url (records ! i))
                    else None)
             \<and> length results = length records
             \<and> map (\<lambda>r. (res_row_index r, res_excel_row r, res_listing_url r)) results
                 = map (\<lambda>d. (row_index d, excel_row d, listing_url d)) records
             \<and> (\<forall>j. j < length records \<and> 0 \<le> max_retries
                  \<longrightarrow> (j, 0, listing_url (records ! j)) \<in> set gets)
             \<and> (\<forall>j html. j < length records \<and> 0 \<le> max_retries
                    \<and> fetch_listing_html (replies j 0) (listing_url (records ! j)) = Inr html
                  \<longrightarrow> detected_status (results ! j) = detect_availability parser html
                      \<and> error_message (results ! j) = None
                      \<and> filter (\<lambda>g. fst g = j) gets = [(j, 0, listing_url (records ! j))])"
proof -
  let ?run = "requests_rows U parser replies max_retries 0 records"
  note att = requests_attempts_challenged_from_start [OF assms(2), of parser]
  have log: "filter (\<lambda>g. fst g = i) (snd ?run)
               = map (\<lambda>k. (i, k, listing_url (records ! i))) [0 ..< nat (1 + max_retries)]"
    using requests_rows_gets_of [OF assms(1), of 0 U parser replies max_retries]
    by (simp add: att)
  have status: "detected_status (fst ?run ! i) = ''BLOCKED''"
    using requests_rows_nth [OF assms(1), of U parser replies max_retries 0]
    by (simp add: att result_row_def)
  have detail: "error_message (fst ?run ! i)
                 = (if 0 \<le> max_retries
                    then Some (''Bot challenge detected for '' @ listing_url (records ! i))
                    else None)"
    using requests_rows_nth [OF assms(1), of U parser replies max_retries 0]
    by (simp add: att result_row_def)
  have others: "detected_status (fst ?run ! j) = detect_availability parser html
                      \<and> error_message (fst ?run ! j) = None
                      \<and> filter (\<lambda>g. fst g = j) (snd ?run) = [(j, 0, listing_url (records ! j))]"
    if j: "j < length records" and mr: "0 \<le> max_retries"
      and ok: "fetch_listing_html (replies j 0) (listing_url (records ! j)) = Inr html"
    for j html
  proof -
    note first = requests_attempts_first_ok
                   [where replies = "replies j" and parser = parser and availability = "''BLOCKED''"
                      and error = None and gets = "[]", OF mr ok]
    show ?thesis
      using requests_rows_nth [OF j, of U parser replies max_retries 0]
            requests_rows_gets_of [OF j, of 0 U parser replies max_retries]
      by (simp add: first result_row_def)
  qed
  have every: "(j, 0, listing_url (records ! j)) \<in> set (snd ?run)"
    if j: "j < length records" and mr: "0 \<le> max_retries" for j
  proof -
    have "(j, 0, listing_url (records ! j))
            \<in> set (filter (\<lambda>g. fst g = j) (snd ?run))"
      using requests_rows_gets_of [OF j, of 0 U parser replies max_retries]
            requests_attempts_first_get [OF mr, of "listing_url (records ! j)" parser "replies j"
               "''BLOCKED''" None]
      by (force simp: image_iff)
    then show ?thesis by simp
  qed
  show ?thesis
    unfolding process_variants_requests_def split_beta
    using log status detail others every requests_rows_length [of U parser replies max_retries 0 records]
      requests_rows_fields [of U parser replies max_retries 0 records]
    by blast
qed

theorem blocked_after_retries_witness:
  "case process_variants_requests plain_urllib text_parser captcha_first two_descriptors 2 of
     (results, gets) \<Rightarrow>
       filter (\<lambda>g. fst g = 0) gets
         = map (\<lambda>k. (0, k, listing_url (two_descriptors ! 0))) [0 ..< nat (1 + 2)]
       \<and> detected_status (results ! 0) = ''BLOCKED''
       \<and> error_message (results ! 0)
           = Some (''Bot challenge detected for '' @ listing_url (two_descriptors ! 0))
       \<and> length results = length two_descriptors
       \<and> detected_status (results ! 1) = detect_availability text_parser ''In stock''
       \<and> error_message (results ! 1) = None
       \<and> filter (\<lambda>g. fst g = 1) gets = [(1, 0, listing_url (two_descriptors ! 1))]"
proof -
  have h1: "0 < length two_descriptors" by (simp add: two_descriptors_def)
  have "fetch_listing_html (Response 200 ''Please solve the captcha'')
          (listing_url (two_descriptors ! 0))
        = Inl (ChallengeDetected (''Bot challenge detected for '' @ listing_url (two_descriptors ! 0)))"
    by code_simp
  then have h2: "\<forall>k. int k \<le> 2 \<longrightarrow>
           (\<exists>msg. fetch_listing_html (captcha_first 0 k) (listing_url (two_descriptors ! 0))
                    = Inl (ChallengeDetected msg))"
    by (simp add: captcha_first_def)
  have h3: "1 < length two_descriptors" by (simp add: two_descriptors_def)
  have "fetch_listing_html (Response 200 ''In stock'') (listing_url (two_descriptors ! 1))
        = Inr ''In stock''"
    by code_simp
  then have h4: "fetch_listing_html (captcha_first 1 0) (listing_url (two_descriptors ! 1))
        = Inr ''In stock''"
    by (simp add: captcha_first_def)
  have h5: "(0::int) \<le> 2" by simp
  from blocked_after_retries
         [where max_retries = 2 and i = 0 and records = two_descriptors and replies = captcha_first
            and U = plain_urllib and parser = text_parser, OF h1 h2]
       h3 h4 h5
  show ?thesis by (auto simp: split_beta)
qed

section \<open>Interactive engine: groups and dimensions\<close>

lemma first_keyword_group_bounds:
  "first_keyword_group keywords used i0 groups = Some i \<Longrightarrow>
     i0 \<le> i \<and> i - i0 < length groups \<and> i \<notin> used"
proof (induction groups arbitrary: i0)
  case Nil
  then show ?case by simp
next
  case (Cons g groups)
  then show ?case by (fastforce split: if_splits)
qed

lemma first_unused_bounds:
  "first_unused used i0 groups = Some i \<Longrightarrow> i0 \<le> i \<and> i - i0 < length groups \<and> i \<notin> used"
proof (induction groups arbitrary: i0)
  case Nil
  then show ?case by simp
next
  case (Cons g groups)
  then show ?case by (fastforce split: if_splits)
qed

lemma find_group_for_dimension_unused:
  "find_group_for_dimension groups dimension used = Some i \<Longrightarrow> i < length groups \<and> i \<notin> used"
  unfolding find_group_for_dimension_def
  using first_keyword_group_bounds [of "GROUP_KEYWORDS dimension" used 0 groups i]
        first_unused_bounds [of used 0 groups i]
  by (auto split: option.splits)

lemma first_keyword_group_first:
  "first_keyword_group keywords {} i0 groups = Some i \<Longrightarrow>
     list_ex (\<lambda>keyword. is_in keyword (normalize_label (label (groups ! (i - i0))))) keywords
     \<and> (\<forall>j < i - i0.
           \<not> list_ex (\<lambda>keyword. is_in keyword (normalize_label (label (groups ! j)))) keywords)"
proof (induction groups arbitrary: i0)
  case Nil
  then show ?case by simp
next
  case (Cons g groups)
  show ?case
  proof (cases "list_ex (\<lambda>keyword. is_in keyword (normalize_label (label g))) keywords")
    case True
    then show ?thesis using Cons.prems by simp
  next
    case False
    then have rest: "first_keyword_group keywords {} (Suc i0) groups = Some i"
      using Cons.prems by simp
    from first_keyword_group_bounds [OF rest] have le: "Suc i0 \<le> i" by simp
    then have eq: "i - i0 = Suc (i - Suc i0)" by simp
    from Cons.IH [OF rest] show ?thesis
      unfolding eq using False by (auto simp: less_Suc_eq_0_disj)
  qed
qed

lemma first_keyword_group_none:
  "first_keyword_group keywords {} i0 groups = None \<Longrightarrow>
     \<forall>j < length groups.
        \<not> list_ex (\<lambda>keyword. is_in keyword (normalize_label (label (groups ! j)))) keywords"
proof (induction groups arbitrary: i0)
  case Nil
  then show ?case by simp
next
  case (Cons g groups)
  then show ?case by (auto simp: less_Suc_eq_0_disj split: if_splits)
qed

lemma first_unused_empty: "groups \<noteq> [] \<Longrightarrow> first_unused {} i0 groups = Some i0"
  by (cases groups) simp_all

lemma find_group_for_dimension_empty:
  assumes "groups \<noteq> []"
  shows "\<exists>i. find_group_for_dimension groups dimension {} = Some i \<and> i < length groups
           \<and> ((list_ex (\<lambda>keyword. is_in keyword (normalize_label (label (groups ! i))))
                  (GROUP_KEYWORDS dimension)
                \<and> (\<forall>j < i. \<not> list_ex (\<lambda>keyword. is_in keyword (normalize_label (label (groups ! j))))
                                  (GROUP_KEYWORDS dimension)))
               \<or> (i = 0
                   \<and> (\<forall>j < length groups.
                          \<not> list_ex (\<lambda>keyword. is_in keyword (normalize_label (label (groups ! j))))
                               (GROUP_KEYWORDS dimension))))"
proof (cases "first_keyword_group (GROUP_KEYWORDS dimension) {} 0 groups")
  case None
  from first_keyword_group_none [OF None] first_unused_empty [OF assms, of 0] assms
  show ?thesis by (simp add: find_group_for_dimension_def None)
next
  case (Some i)
  from first_keyword_group_first [OF Some] first_keyword_group_bounds [OF Some]
  show ?thesis by (simp add: find_group_for_dimension_def Some)
qed

lemma run_selections_calls:
  "run_selections groups used dims calls = Inr (res, calls') \<Longrightarrow>
     \<exists>new. calls' = calls @ new \<and> distinct (map fst new) \<and> fst ` set new \<inter> used = {}
           \<and> set new \<subseteq> set dims"
proof (induction dims arbitrary: used calls)
  case Nil
  then show ?case by simp
next
  case (Cons e dims)
  obtain g t v where e: "e = (g, t, v)" by (cases e)
  show ?case
  proof (cases "g \<in> used")
    case True
    then have "run_selections groups used dims calls = Inr (res, calls')"
      using Cons.prems e by simp
    from Cons.IH [OF this] show ?thesis by auto
  next
    case False
    show ?thesis
    proof (cases "select_option_from_group (groups ! g) v")
      case (Inl exc)
      then show ?thesis using Cons.prems e False by simp
    next
      case (Inr r)
      obtain ok reason where r: "r = (ok, reason)" by (cases r)
      show ?thesis
      proof (cases ok)
        case False
        then have "calls' = calls @ [(g, t, v)]"
          using Cons.prems e \<open>g \<notin> used\<close> Inr r by (simp add: Let_def)
        then show ?thesis using \<open>g \<notin> used\<close> e by simp
      next
        case True
        then have "run_selections groups (insert g used) dims (calls @ [(g, t, v)]) = Inr (res, calls')"
          using Cons.prems e \<open>g \<notin> used\<close> Inr r by simp
        from Cons.IH [OF this] obtain new where
          new: "calls' = (calls @ [(g, t, v)]) @ new" "distinct (map fst new)"
               "fst ` set new \<inter> insert g used = {}" "set new \<subseteq> set dims"
          by blast
        have "calls' = calls @ ((g, t, v) # new)" using new(1) by simp
        moreover have "distinct (map fst ((g, t, v) # new))" using new(2,3) by auto
        moreover have "fst ` set ((g, t, v) # new) \<inter> used = {}" using new(3) \<open>g \<notin> used\<close> by auto
        moreover have "set ((g, t, v) # new) \<subseteq> set (e # dims)" using new(4) e by auto
        ultimately show ?thesis by blast
      qed
    qed
  qed
qed

lemma dimensions_with_group_both:
  assumes "truthy (variation d)" and "truthy (size_value d)"
    and "find_group_for_dimension groups ''variation'' {} = Some gv"
    and "find_group_for_dimension groups ''size'' {} = Some gs"
  shows "dimensions_with_group groups d
         = (if gs < gv then [(gs, ''size'', the (size_value d)), (gv, ''variation'', the (variation d))]
            else [(gv, ''variation'', the (variation d)), (gs, ''size'', the (size_value d))])"
  using assms by (auto simp: dimensions_with_group_def)

lemma run_selections_same_group:
  assumes "run_selections groups {} [(g, t, v), (g, t', v')] [] = Inr (res, calls)"
  shows "calls = [(g, t, v)]"
proof (cases "select_option_from_group (groups ! g) v")
  case (Inl exc)
  then show ?thesis using assms by simp
next
  case (Inr r)
  obtain ok reason where r: "r = (ok, reason)" by (cases r)
  show ?thesis using assms Inr r by (cases ok) (auto simp: Let_def)
qed

text \<open>
  Both calls of \<open>find_group_for_dimension\<close> in \<open>process_variants_chromium\<close> receive the
  empty set of used indices.  So each dimension is assigned on its own: it gets the first
  group whose normalized label contains one of its keywords, and group 0 when no label does.
  The list of selections is ordered by group index, the colour first when the indices are
  equal.  No group is selected from twice; when both dimensions have the same group, the
  only call made is the one for the colour.
\<close>

lemma dimensions_assigned_independently:
  assumes "truthy (variation d)" and "truthy (size_value d)" and "groups \<noteq> []"
  shows "\<exists>gv gs.
           find_group_for_dimension groups ''variation'' {} = Some gv
         \<and> find_group_for_dimension groups ''size'' {} = Some gs
         \<and> gv < length groups \<and> gs < length groups
         \<and> ((list_ex (\<lambda>keyword. is_in keyword (normalize_label (label (groups ! gv))))
                (GROUP_KEYWORDS ''variation'')
              \<and> (\<forall>j < gv. \<not> list_ex (\<lambda>keyword. is_in keyword (normalize_label (label (groups ! j))))
                                (GROUP_KEYWORDS ''variation'')))
             \<or> (gv = 0
                 \<and> (\<forall>j < length groups.
                        \<not> list_ex (\<lambda>keyword. is_in keyword (normalize_label (label (groups ! j))))
                             (GROUP_KEYWORDS ''variation''))))
         \<and> ((list_ex (\<lambda>keyword. is_in keyword (normalize_label (label (groups ! gs))))
                (GROUP_KEYWORDS ''size'')
              \<and> (\<forall>j < gs. \<not> list_ex (\<lambda>keyword. is_in keyword (normalize_label (label (groups ! j))))
                                (GROUP_KEYWORDS ''size'')))
             \<or> (gs = 0
                 \<and> (\<forall>j < length groups.
                        \<not> list_ex (\<lambda>keyword. is_in keyword (normalize_label (label (groups ! j))))
                             (GROUP_KEYWORDS ''size''))))
         \<and> dimensions_with_group groups d
             = (if gs < gv
                then [(gs, ''size'', the (size_value d)), (gv, ''variation'', the (variation d))]
                else [(gv, ''variation'', the (variation d)), (gs, ''size'', the (size_value d))])
         \<and> (\<forall>res calls.
               run_selections groups {} (dimensions_with_group groups d) [] = Inr (res, calls)
               \<longrightarrow> distinct (map fst calls)
                   \<and> (gv = gs \<longrightarrow> calls = [(gv, ''variation'', the (variation d))]))"
proof -
  from find_group_for_dimension_empty [OF assms(3), of "''variation''"]
  obtain gv where gv: "find_group_for_dimension groups ''variation'' {} = Some gv"
      "gv < length groups"
      "(list_ex (\<lambda>keyword. is_in keyword (normalize_label (label (groups ! gv))))
                (GROUP_KEYWORDS ''variation'')
              \<and> (\<forall>j < gv. \<not> list_ex (\<lambda>keyword. is_in keyword (normalize_label (label (groups ! j))))
                                (GROUP_KEYWORDS ''variation'')))
             \<or> (gv = 0
                 \<and> (\<forall>j < length groups.
                        \<not> list_ex (\<lambda>keyword. is_in keyword (normalize_label (label (groups ! j))))
                             (GROUP_KEYWORDS ''variation'')))"
    by blast
  from find_group_for_dimension_empty [OF assms(3), of "''size''"]
  obtain gs where gs: "find_group_for_dimension groups ''size'' {} = Some gs"
      "gs < length groups"
      "(list_ex (\<lambda>keyword. is_in keyword (normalize_label (label (groups ! gs))))
                (GROUP_KEYWORDS ''size'')
              \<and> (\<forall>j < gs. \<not> list_ex (\<lambda>keyword. is_in keyword (normalize_label (label (groups ! j))))
                                (GROUP_KEYWORDS ''size'')))
             \<or> (gs = 0
                 \<and> (\<forall>j < length groups.
                        \<not> list_ex (\<lambda>keyword. is_in keyword (normalize_label (label (groups ! j))))
                             (GROUP_KEYWORDS ''size'')))"
    by blast
  note dims = dimensions_with_group_both [OF assms(1,2) gv(1) gs(1)]
  have sel: "distinct (map fst calls) \<and> (gv = gs \<longrightarrow> calls = [(gv, ''variation'', the (variation d))])"
    if run: "run_selections groups {} (dimensions_with_group groups d) [] = Inr (res, calls)"
    for res calls
  proof
    from run_selections_calls [OF run] show "distinct (map fst calls)" by auto
  next
    show "gv = gs \<longrightarrow> calls = [(gv, ''variation'', the (variation d))]"
    proof
      assume same: "gv = gs"
      then have "run_selections groups {}
                   [(gv, ''variation'', the (variation d)), (gv, ''size'', the (size_value d))] []
                 = Inr (res, calls)"
        using run dims by simp
      then show "calls = [(gv, ''variation'', the (variation d))]"
        by (rule run_selections_same_group)
    qed
  qed
  show ?thesis
    using gv gs dims sel by blast
qed

text \<open>
  Claim C6: a visit that requests a colour and a size and finds at least two groups should
  assign the two dimensions to two distinct groups, the fallback being the first group not
  assigned to the other dimension.  The code does not.  \<open>find_group_for_dimension\<close> skips
  the indices it is given, and for the size on a page with the groups \<open>Colour\<close> and
  \<open>Pack\<close> it answers group 1 once told that group 0 is taken; but
  \<open>process_variants_chromium\<close> tells it nothing, so both dimensions get group 0.  The
  selection loop then skips the second use of group 0: the size wanted is never selected,
  and the attempt reports \<open>IN_STOCK\<close> from the colour alone.
\<close>

theorem both_dimensions_on_one_group:
  "map fst (dimensions_with_group colour_pack_groups green_cream_descriptor) = [0, 0]
   \<and> find_group_for_dimension colour_pack_groups ''size'' {0} = Some 1
   \<and> chromium_attempt green_cream_descriptor (loaded_page colour_pack_groups)
       = Inr ((''IN_STOCK'', None), [(0, ''variation'', ''Green Cream - Greekey'')])"
  by code_simp

section \<open>Interactive engine: a selection that fails\<close>

lemma disabled_reasons:
  "r \<in> {''Option marked out of stock (disabled class)'',
         ''Option marked out of stock (aria-disabled=true)'',
         ''Label indicates out of stock''}
   \<Longrightarrow> r \<noteq> [] \<and> list_ex (\<lambda>keyword. is_in keyword (lower r)) DISABLED_KEYWORDS"
proof -
  have a: "list_ex (\<lambda>keyword. is_in keyword (lower ''Option marked out of stock (disabled class)''))
             DISABLED_KEYWORDS" by code_simp
  have b: "list_ex (\<lambda>keyword. is_in keyword (lower ''Option marked out of stock (aria-disabled=true)''))
             DISABLED_KEYWORDS" by code_simp
  have c: "list_ex (\<lambda>keyword. is_in keyword (lower ''Label indicates out of stock''))
             DISABLED_KEYWORDS" by code_simp
  assume "r \<in> {''Option marked out of stock (disabled class)'',
         ''Option marked out of stock (aria-disabled=true)'',
         ''Label indicates out of stock''}"
  then show ?thesis using a b c by auto
qed

lemma interpret_option_state_marked:
  assumes "(truthy cls \<and> is_in ''listbox__option--disabled'' (the cls))
           \<or> aria = Some ''true'' \<or> is_in ''out of stock'' (lower chosen_text)"
  shows "\<exists>r. interpret_option_state chosen_text cls aria = (True, r)
           \<and> r \<in> {''Option marked out of stock (disabled class)'',
                    ''Option marked out of stock (aria-disabled=true)'',
                    ''Label indicates out of stock''}"
proof (cases "is_in ''out of stock'' (lower chosen_text)")
  case True
  then show ?thesis by (simp add: interpret_option_state_def Let_def)
next
  case False
  show ?thesis
  proof (cases "aria = Some ''true''")
    case True
    then show ?thesis using False by (simp add: interpret_option_state_def Let_def)
  next
    case no_aria: False
    then have "truthy cls \<and> is_in ''listbox__option--disabled'' (the cls)"
      using assms False by blast
    then show ?thesis using False no_aria by (simp add: interpret_option_state_def Let_def)
  qed
qed

lemma select_option_disabled:
  assumes "gtype grp \<noteq> ''select''" and "button_present grp" and "driver_fault grp = None"
    and "chosen_option (group_options grp) v = Some (opt, chosen_text)"
    and "(truthy (class_attr opt) \<and> is_in ''listbox__option--disabled'' (the (class_attr opt)))
           \<or> aria_disabled opt = Some ''true'' \<or> is_in ''out of stock'' (lower chosen_text)"
  shows "\<exists>r. select_option_from_group grp v = Inr (False, Some r) \<and> r \<noteq> []
            \<and> list_ex (\<lambda>keyword. is_in keyword (lower r)) DISABLED_KEYWORDS"
proof -
  from interpret_option_state_marked [OF assms(5)] obtain r where
    r: "interpret_option_state chosen_text (class_attr opt) (aria_disabled opt) = (True, r)"
       "r \<in> {''Option marked out of stock (disabled class)'',
                    ''Option marked out of stock (aria-disabled=true)'',
                    ''Label indicates out of stock''}"
    by blast
  from disabled_reasons [OF r(2)] have ok: "r \<noteq> []"
    "list_ex (\<lambda>keyword. is_in keyword (lower r)) DISABLED_KEYWORDS" by simp_all
  have "select_option_from_group grp v = Inr (False, Some r)"
    using assms(1-4) r(1) ok(1) by (simp add: select_option_from_group_def)
  then show ?thesis using ok by blast
qed

lemma run_selections_stop:
  assumes "\<forall>e \<in> set pre. fst e \<notin> used
             \<and> select_option_from_group (groups ! fst e) (snd (snd e)) = Inr (True, None)"
    and "distinct (map fst pre)" and "g \<notin> used" and "g \<notin> fst ` set pre"
    and "select_option_from_group (groups ! g) v = Inr (False, r)"
  shows "run_selections groups used (pre @ (g, t, v) # post) calls
         = Inr (Some (if list_ex (\<lambda>keyword. is_in keyword
                                     (lower (case r of None \<Rightarrow> [] | Some x \<Rightarrow> x))) DISABLED_KEYWORDS
                      then ''OUT_OF_STOCK'' else ''ERROR'', r),
                calls @ pre @ [(g, t, v)])"
  using assms
proof (induction pre arbitrary: used calls)
  case Nil
  then show ?case by (simp add: Let_def)
next
  case (Cons e pre)
  obtain g' t' v' where e: "e = (g', t', v')" by (cases e)
  have sel: "select_option_from_group (groups ! g') v' = Inr (True, None)" and fresh: "g' \<notin> used"
    using Cons.prems(1) e by simp_all
  have rest: "\<forall>e \<in> set pre. fst e \<notin> insert g' used
             \<and> select_option_from_group (groups ! fst e) (snd (snd e)) = Inr (True, None)"
    using Cons.prems(1,2) e by auto
  have d: "distinct (map fst pre)" using Cons.prems(2) by simp
  have g1: "g \<notin> insert g' used" using Cons.prems(3,4) e by auto
  have g2: "g \<notin> fst ` set pre" using Cons.prems(4) by auto
  from Cons.IH [OF rest d g1 g2 Cons.prems(5), of "calls @ [(g', t', v')]"]
  show ?case using e sel fresh by simp
qed

declare chromium_attempts.simps [simp del]


lemma chromium_attempts_final:
  assumes "0 \<le> max_retries"
    and "chromium_attempt d (visits 0) = Inr ((status, detail), calls)"
  shows "chromium_attempts d visits max_retries 0 availability error = (status, detail, 1)"
  using assms by (subst chromium_attempts.simps) simp

lemma dimensions_with_group_length: "length (dimensions_with_group groups d) \<le> 2"
  by (simp add: dimensions_with_group_def split: option.splits)


lemma interpret_option_state_unmarked:
  assumes "\<not> ((truthy cls \<and> is_in ''listbox__option--disabled'' (the cls))
              \<or> aria = Some ''true'' \<or> is_in ''out of stock'' (lower chosen_text))"
  shows "interpret_option_state chosen_text cls aria = (False, [])"
  using assms by (simp add: interpret_option_state_def Let_def)

lemma is_in_Nil: "is_in [] s"
  by (induction s) simp_all

lemma prefix_before_char:
  assumes "prefix kw (xs @ c # ys)" and "c \<notin> set kw"
  shows "prefix kw xs"
proof -
  from assms(1) have "prefix kw xs \<or> (\<exists>us. kw = xs @ us \<and> prefix us (c # ys))"
    by (simp add: prefix_append)
  then show ?thesis
  proof
    assume "prefix kw xs"
    then show ?thesis .
  next
    assume "\<exists>us. kw = xs @ us \<and> prefix us (c # ys)"
    then obtain us where us: "kw = xs @ us" "prefix us (c # ys)" by blast
    have "us = []"
    proof (cases us)
      case Nil
      then show ?thesis .
    next
      case (Cons u rest)
      then have "u = c" using us(2) by simp
      then have "c \<in> set kw" using us(1) Cons by simp
      then show ?thesis using assms(2) by simp
    qed
    then show ?thesis using us(1) by simp
  qed
qed

lemma is_in_across_char:
  assumes "is_in kw (xs @ c # ys)" and "c \<notin> set kw"
  shows "is_in kw xs \<or> is_in kw ys"
  using assms(1)
proof (induction xs)
  case Nil
  then have "prefix kw (c # ys) \<or> is_in kw ys" by simp
  then show ?case
  proof
    assume "prefix kw (c # ys)"
    then have "prefix kw []" using prefix_before_char [of kw "[]" c ys] assms(2) by simp
    then have "kw = []" by simp
    then show ?thesis by (simp add: is_in_Nil)
  next
    assume "is_in kw ys"
    then show ?thesis by simp
  qed
next
  case (Cons x xs)
  then have "prefix kw ((x # xs) @ c # ys) \<or> is_in kw (xs @ c # ys)" by simp
  then show ?case
  proof
    assume "prefix kw ((x # xs) @ c # ys)"
    then have "prefix kw (x # xs)" using assms(2) by (rule prefix_before_char)
    then show ?thesis by simp
  next
    assume "is_in kw (xs @ c # ys)"
    from Cons.IH [OF this] show ?thesis by auto
  qed
qed

lemma keyword_across_quotes:
  assumes "list_ex (\<lambda>keyword. is_in keyword (before @ CHR 0x27 # middle @ CHR 0x27 # after))
             DISABLED_KEYWORDS"
  shows "list_ex (\<lambda>keyword. is_in keyword before) DISABLED_KEYWORDS
         \<or> list_ex (\<lambda>keyword. is_in keyword middle) DISABLED_KEYWORDS
         \<or> list_ex (\<lambda>keyword. is_in keyword after) DISABLED_KEYWORDS"
proof -
  have q: "\<forall>keyword \<in> set DISABLED_KEYWORDS. CHR 0x27 \<notin> set keyword"
    by (simp add: DISABLED_KEYWORDS_def)
  from assms obtain keyword where
    k: "keyword \<in> set DISABLED_KEYWORDS"
       "is_in keyword (before @ CHR 0x27 # middle @ CHR 0x27 # after)"
    by (auto simp: list_ex_iff)
  have nq: "CHR 0x27 \<notin> set keyword" using q k(1) by blast
  from is_in_across_char [OF k(2) nq]
  have "is_in keyword before \<or> is_in keyword (middle @ CHR 0x27 # after)" .
  then have "is_in keyword before \<or> is_in keyword middle \<or> is_in keyword after"
    using is_in_across_char [of keyword middle "CHR 0x27" after] nq by blast
  then show ?thesis using k(1) by (auto simp: list_ex_iff)
qed

lemma lower_append: "lower (xs @ ys) = lower xs @ lower ys"
  by (simp add: lower_def)

lemma lower_quoted:
  "lower (before @ [CHR 0x27] @ v @ [CHR 0x27] @ after)
   = lower before @ CHR 0x27 # lower v @ CHR 0x27 # lower after"
proof -
  have "lower_char (CHR 0x27) = CHR 0x27" by code_simp
  then show ?thesis by (simp add: lower_def)
qed

lemma not_found_keeps_verdict:
  assumes "\<not> list_ex (\<lambda>keyword. is_in keyword (lower v)) DISABLED_KEYWORDS"
  shows "\<not> list_ex (\<lambda>keyword. is_in keyword (lower (not_found v))) DISABLED_KEYWORDS"
proof -
  have b: "\<not> list_ex (\<lambda>keyword. is_in keyword (lower ''Variant value '')) DISABLED_KEYWORDS"
    by code_simp
  have a: "\<not> list_ex (\<lambda>keyword. is_in keyword (lower '' not found'')) DISABLED_KEYWORDS"
    by code_simp
  have "lower (not_found v)
        = lower ''Variant value '' @ CHR 0x27 # lower v @ CHR 0x27 # lower '' not found''"
    unfolding not_found_def by (rule lower_quoted)
  then show ?thesis using keyword_across_quotes [of "lower ''Variant value ''" "lower v"
        "lower '' not found''"] assms a b by auto
qed

lemma click_timeout_keeps_verdict:
  assumes "\<not> list_ex (\<lambda>keyword. is_in keyword (lower v)) DISABLED_KEYWORDS"
  shows "\<not> list_ex (\<lambda>keyword. is_in keyword (lower (click_timeout v))) DISABLED_KEYWORDS"
proof -
  have b: "\<not> list_ex (\<lambda>keyword. is_in keyword (lower ''Timeout clicking option ''))
               DISABLED_KEYWORDS"
    by code_simp
  have a: "\<not> list_ex (\<lambda>keyword. is_in keyword (lower '' - element not interactable''))
               DISABLED_KEYWORDS"
    by code_simp
  have "lower (click_timeout v)
        = lower ''Timeout clicking option '' @ CHR 0x27 # lower v
            @ CHR 0x27 # lower '' - element not interactable''"
    unfolding click_timeout_def by (rule lower_quoted)
  then show ?thesis using keyword_across_quotes [of "lower ''Timeout clicking option ''" "lower v"
        "lower '' - element not interactable''"] assms a b by auto
qed

lemma button_missing_verdict:
  "\<not> list_ex (\<lambda>keyword. is_in keyword (lower ''Variant selector button missing''))
       DISABLED_KEYWORDS"
  by code_simp

lemma option_disabled_verdict:
  "list_ex (\<lambda>keyword. is_in keyword (lower ''Option disabled'')) DISABLED_KEYWORDS"
  by code_simp


lemma keyword_free:
  assumes "\<not> is_in ''out of stock'' (lower v)" and "\<not> is_in ''disabled'' (lower v)"
  shows "\<not> list_ex (\<lambda>keyword. is_in keyword (lower v)) DISABLED_KEYWORDS"
proof -
  have "is_in ''disabled'' (lower v)" if "is_in ''aria-disabled'' (lower v)"
    using is_in_append [of "''aria-''" "''disabled''" "lower v"] that by simp
  then show ?thesis using assms by (auto simp: DISABLED_KEYWORDS_def)
qed

lemma select_native_disabled:
  assumes "gtype grp = ''select''" and "driver_fault grp = None"
    and "find (\<lambda>option. option_matches (strip (inner_text option)) v) (group_options grp) = Some opt"
    and "disabled_attr opt \<noteq> None"
  shows "select_option_from_group grp v = Inr (False, Some ''Option disabled'')"
  using assms by (simp add: select_option_from_group_def)

lemma select_no_button:
  assumes "gtype grp \<noteq> ''select''" and "driver_fault grp = None" and "\<not> button_present grp"
  shows "select_option_from_group grp v = Inr (False, Some ''Variant selector button missing'')"
  using assms by (simp add: select_option_from_group_def)

lemma select_not_found:
  assumes "driver_fault grp = None"
    and "(gtype grp = ''select''
           \<and> find (\<lambda>option. option_matches (strip (inner_text option)) v) (group_options grp) = None)
         \<or> (gtype grp \<noteq> ''select'' \<and> button_present grp
             \<and> chosen_option (group_options grp) v = None)"
  shows "select_option_from_group grp v = Inr (False, Some (not_found v))"
  using assms by (auto simp: select_option_from_group_def)

lemma select_click_timeout:
  assumes "gtype grp \<noteq> ''select''" and "driver_fault grp = None" and "button_present grp"
    and "chosen_option (group_options grp) v = Some (opt, chosen_text)"
    and "\<not> ((truthy (class_attr opt) \<and> is_in ''listbox__option--disabled'' (the (class_attr opt)))
              \<or> aria_disabled opt = Some ''true'' \<or> is_in ''out of stock'' (lower chosen_text))"
    and "click_times_out opt"
  shows "select_option_from_group grp v = Inr (False, Some (click_timeout v))"
proof -
  have "interpret_option_state chosen_text (class_attr opt) (aria_disabled opt) = (False, [])"
    using assms(5) by (rule interpret_option_state_unmarked)
  then show ?thesis using assms(1-4,6) by (simp add: select_option_from_group_def)
qed

text \<open>
  Claim C2, as stated: a matched colour option with a disabled marker gives
  \<open>OUT_OF_STOCK\<close>, and a failure whose reason does not indicate disablement gives
  \<open>ERROR\<close>.  It fails on three inputs.  On a page of native list controls the colour
  wanted is listed with \<open>out of stock\<close> in its label, the disabled class and
  \<open>aria-disabled = true\<close>, but without the \<open>disabled\<close> attribute, the only thing read
  on a native list: the option is selected, the size group is tried and the attempt ends
  \<open>IN_STOCK\<close>.  A descriptor whose colour is \<open>Blue (out of stock)\<close> and is not listed
  fails with the reason \<open>not found\<close>, and a descriptor whose colour is \<open>Disabled Bay\<close>
  and is listed and enabled fails with a click timeout; both reasons quote the colour wanted,
  so the keyword test on the reason finds \<open>out of stock\<close>, respectively \<open>disabled\<close>,
  and the attempts end \<open>OUT_OF_STOCK\<close>.
\<close>

theorem marker_or_reason_misread:
  "chromium_attempt green_cream_descriptor marked_native_page
     = Inr ((''IN_STOCK'', None),
            [(0, ''variation'', ''Green Cream - Greekey''), (1, ''size'', ''60 x 110 cm'')])
   \<and> chromium_attempt sold_blue_descriptor missing_colour_page
     = Inr ((''OUT_OF_STOCK'', Some (not_found ''Blue (out of stock)'')),
            [(0, ''variation'', ''Blue (out of stock)'')])
   \<and> chromium_attempt disabled_bay_descriptor slow_bay_page
     = Inr ((''OUT_OF_STOCK'', Some (click_timeout ''Disabled Bay'')),
            [(0, ''variation'', ''Disabled Bay'')])"
  by code_simp

text \<open>
  Claim C2, amended: take an interactive attempt whose page loads without incident, and a
  group in its list of selections (the colour group in particular) on which the driver
  raises nothing and before which every selection succeeds.  In each of the cases below the
  attempt ends with the status and error detail given, and the calls of
  \<open>select_option_from_group\<close> end with that group: no later group, the size group in
  particular, is tried.
  \<^item> The group is a popup control with its button, and the option matched carries a disabled
    marker (the disabled class, \<open>aria-disabled = true\<close>, or a label with
    \<open>out of stock\<close>): \<open>OUT_OF_STOCK\<close> with a non-empty error detail.
  \<^item> The group is a native list, and the first option whose text matches has the
    \<open>disabled\<close> attribute: \<open>OUT_OF_STOCK\<close> with the detail \<open>Option disabled\<close>.
  \<^item> The group is neither a native list nor has a popup button: \<open>ERROR\<close> with the detail
    \<open>Variant selector button missing\<close>.
  \<^item> The value wanted holds neither \<open>out of stock\<close> nor \<open>disabled\<close>, in any letter case,
    and no option of the group matches it: \<open>ERROR\<close> with the detail that the value was not
    found.
  \<^item> The value wanted holds neither \<open>out of stock\<close> nor \<open>disabled\<close>, the option matched in
    a popup control carries no disabled marker, and the click on it times out: \<open>ERROR\<close>
    with the detail of the click timeout.

  The verdict of a first attempt that ends without an exception is the verdict of the
  descriptor: the retry loop stops after that one attempt.
\<close>

theorem failed_selection_short_circuits:
  assumes "goto_fault page = None" and "\<not> detect_challenge page" and "collect_fault page = None"
    and "dimensions_with_group (found_groups page) d = pre @ (g, t, v) # post"
    and "\<forall>e \<in> set pre. fst e \<noteq> g
           \<and> select_option_from_group (found_groups page ! fst e) (snd (snd e)) = Inr (True, None)"
    and "driver_fault (found_groups page ! g) = None"
  shows "(gtype (found_groups page ! g) \<noteq> ''select'' \<and> button_present (found_groups page ! g)
            \<and> chosen_option (group_options (found_groups page ! g)) v = Some (opt, chosen_text)
            \<and> ((truthy (class_attr opt) \<and> is_in ''listbox__option--disabled'' (the (class_attr opt)))
                 \<or> aria_disabled opt = Some ''true'' \<or> is_in ''out of stock'' (lower chosen_text))
          \<longrightarrow> (\<exists>reason. reason \<noteq> []
                 \<and> chromium_attempt d page
                     = Inr ((''OUT_OF_STOCK'', Some reason), pre @ [(g, t, v)])))
       \<and> (gtype (found_groups page ! g) = ''select''
            \<and> find (\<lambda>option. option_matches (strip (inner_text option)) v)
                 (group_options (found_groups page ! g)) = Some opt
            \<and> disabled_attr opt \<noteq> None
          \<longrightarrow> chromium_attempt d page
                = Inr ((''OUT_OF_STOCK'', Some ''Option disabled''), pre @ [(g, t, v)]))
       \<and> (gtype (found_groups page ! g) \<noteq> ''select'' \<and> \<not> button_present (found_groups page ! g)
          \<longrightarrow> chromium_attempt d page
                = Inr ((''ERROR'', Some ''Variant selector button missing''), pre @ [(g, t, v)]))
       \<and> (\<not> is_in ''out of stock'' (lower v) \<and> \<not> is_in ''disabled'' (lower v)
            \<and> ((gtype (found_groups page ! g) = ''select''
                  \<and> find (\<lambda>option. option_matches (strip (inner_text option)) v)
                       (group_options (found_groups page ! g)) = None)
                \<or> (gtype (found_groups page ! g) \<noteq> ''select''
                    \<and> button_present (found_groups page ! g)
                    \<and> chosen_option (group_options (found_groups page ! g)) v = None))
          \<longrightarrow> chromium_attempt d page = Inr ((''ERROR'', Some (not_found v)), pre @ [(g, t, v)]))
       \<and> (\<not> is_in ''out of stock'' (lower v) \<and> \<not> is_in ''disabled'' (lower v)
            \<and> gtype (found_groups page ! g) \<noteq> ''select'' \<and> button_present (found_groups page ! g)
            \<and> chosen_option (group_options (found_groups page ! g)) v = Some (opt, chosen_text)
            \<and> \<not> ((truthy (class_attr opt)
                      \<and> is_in ''listbox__option--disabled'' (the (class_attr opt)))
                    \<or> aria_disabled opt = Some ''true'' \<or> is_in ''out of stock'' (lower chosen_text))
            \<and> click_times_out opt
          \<longrightarrow> chromium_attempt d page
                = Inr ((''ERROR'', Some (click_timeout v)), pre @ [(g, t, v)]))
       \<and> (\<forall>status detail calls.
             chromium_attempt d page = Inr ((status, detail), calls)
             \<and> 0 \<le> max_retries \<and> visits 0 = page
             \<longrightarrow> chromium_attempts d visits max_retries 0 ''BLOCKED'' None = (status, detail, 1))"
proof -
  let ?G = "found_groups page ! g"
  have "length (pre @ (g, t, v) # post) \<le> 2"
    using dimensions_with_group_length [of "found_groups page" d] assms(4) by simp
  then have short: "length pre \<le> 1" by simp
  then have dist: "distinct (map fst pre)" by (cases pre) auto
  have pre_ok: "\<forall>e \<in> set pre. fst e \<notin> {}
             \<and> select_option_from_group (found_groups page ! fst e) (snd (snd e)) = Inr (True, None)"
    using assms(5) by simp
  have g2: "g \<notin> fst ` set pre" using assms(5) by auto
  have stop: "run_selections (found_groups page) {} (dimensions_with_group (found_groups page) d) []
         = Inr (Some (if list_ex (\<lambda>keyword. is_in keyword (lower r)) DISABLED_KEYWORDS
                      then ''OUT_OF_STOCK'' else ''ERROR'', Some r),
                pre @ [(g, t, v)])"
    if "select_option_from_group ?G v = Inr (False, Some r)" for r
    using run_selections_stop [OF pre_ok dist _ g2 that, of t post "[]"] assms(4) by simp
  have attempt: "chromium_attempt d page
         = Inr ((if list_ex (\<lambda>keyword. is_in keyword (lower r)) DISABLED_KEYWORDS
                      then ''OUT_OF_STOCK'' else ''ERROR'', Some r),
                pre @ [(g, t, v)])"
    if "select_option_from_group ?G v = Inr (False, Some r)" for r
    using stop [OF that] assms(1-3) by (simp add: chromium_attempt_def)
  have marked: "\<exists>reason. reason \<noteq> []
                 \<and> chromium_attempt d page
                     = Inr ((''OUT_OF_STOCK'', Some reason), pre @ [(g, t, v)])"
    if a: "gtype ?G \<noteq> ''select'' \<and> button_present ?G
            \<and> chosen_option (group_options ?G) v = Some (opt, chosen_text)
            \<and> ((truthy (class_attr opt) \<and> is_in ''listbox__option--disabled'' (the (class_attr opt)))
                 \<or> aria_disabled opt = Some ''true'' \<or> is_in ''out of stock'' (lower chosen_text))"
  proof -
    from a assms(6) obtain r where r: "select_option_from_group ?G v = Inr (False, Some r)"
        "r \<noteq> []" "list_ex (\<lambda>keyword. is_in keyword (lower r)) DISABLED_KEYWORDS"
      using select_option_disabled [of ?G v opt chosen_text] by blast
    from attempt [OF r(1)] r(2,3) show ?thesis by simp
  qed
  have native: "chromium_attempt d page
                = Inr ((''OUT_OF_STOCK'', Some ''Option disabled''), pre @ [(g, t, v)])"
    if a: "gtype ?G = ''select''
            \<and> find (\<lambda>option. option_matches (strip (inner_text option)) v) (group_options ?G)
                = Some opt
            \<and> disabled_attr opt \<noteq> None"
  proof -
    have "select_option_from_group ?G v = Inr (False, Some ''Option disabled'')"
      using a assms(6) select_native_disabled [of ?G v opt] by blast
    from attempt [OF this] option_disabled_verdict show ?thesis by (simp only: if_True)
  qed
  have button: "chromium_attempt d page
                = Inr ((''ERROR'', Some ''Variant selector button missing''), pre @ [(g, t, v)])"
    if a: "gtype ?G \<noteq> ''select'' \<and> \<not> button_present ?G"
  proof -
    have "select_option_from_group ?G v = Inr (False, Some ''Variant selector button missing'')"
      using a assms(6) select_no_button [of ?G v] by blast
    from attempt [OF this] button_missing_verdict show ?thesis by (simp only: if_False)
  qed
  have missing: "chromium_attempt d page = Inr ((''ERROR'', Some (not_found v)), pre @ [(g, t, v)])"
    if a: "\<not> is_in ''out of stock'' (lower v) \<and> \<not> is_in ''disabled'' (lower v)
            \<and> ((gtype ?G = ''select''
                  \<and> find (\<lambda>option. option_matches (strip (inner_text option)) v)
                       (group_options ?G) = None)
                \<or> (gtype ?G \<noteq> ''select'' \<and> button_present ?G
                    \<and> chosen_option (group_options ?G) v = None))"
  proof -
    have sel: "select_option_from_group ?G v = Inr (False, Some (not_found v))"
      using a assms(6) select_not_found [of ?G v] by blast
    have "\<not> list_ex (\<lambda>keyword. is_in keyword (lower v)) DISABLED_KEYWORDS"
      using a keyword_free [of v] by blast
    then have "\<not> list_ex (\<lambda>keyword. is_in keyword (lower (not_found v))) DISABLED_KEYWORDS"
      by (rule not_found_keeps_verdict)
    with attempt [OF sel] show ?thesis by (simp only: if_False)
  qed
  have slow: "chromium_attempt d page
                = Inr ((''ERROR'', Some (click_timeout v)), pre @ [(g, t, v)])"
    if a: "\<not> is_in ''out of stock'' (lower v) \<and> \<not> is_in ''disabled'' (lower v)
            \<and> gtype ?G \<noteq> ''select'' \<and> button_present ?G
            \<and> chosen_option (group_options ?G) v = Some (opt, chosen_text)
            \<and> \<not> ((truthy (class_attr opt)
                      \<and> is_in ''listbox__option--disabled'' (the (class_attr opt)))
                    \<or> aria_disabled opt = Some ''true'' \<or> is_in ''out of stock'' (lower chosen_text))
            \<and> click_times_out opt"
  proof -
    have sel: "select_option_from_group ?G v = Inr (False, Some (click_timeout v))"
      using a assms(6) select_click_timeout [of ?G v opt chosen_text] by blast
    have "\<not> list_ex (\<lambda>keyword. is_in keyword (lower v)) DISABLED_KEYWORDS"
      using a keyword_free [of v] by blast
    then have "\<not> list_ex (\<lambda>keyword. is_in keyword (lower (click_timeout v))) DISABLED_KEYWORDS"
      by (rule click_timeout_keeps_verdict)
    with attempt [OF sel] show ?thesis by (simp only: if_False)
  qed
  have final: "chromium_attempts d visits max_retries 0 ''BLOCKED'' None = (status, detail, 1)"
    if "chromium_attempt d page = Inr ((status, detail), calls)
             \<and> 0 \<le> max_retries \<and> visits 0 = page" for status detail calls
    using that chromium_attempts_final [of max_retries d visits status detail calls] by simp
  from marked native button missing slow final show ?thesis by blast
qed


theorem failed_selection_short_circuits_witness:
  "(\<exists>reason. reason \<noteq> []
      \<and> chromium_attempt green_cream_descriptor disabled_colour_page
          = Inr ((''OUT_OF_STOCK'', Some reason), [(0, ''variation'', ''Green Cream - Greekey'')])
      \<and> chromium_attempts green_cream_descriptor (\<lambda>k. disabled_colour_page) 2 0 ''BLOCKED'' None
          = (''OUT_OF_STOCK'', Some reason, 1))
   \<and> chromium_attempt green_cream_descriptor disabled_native_page
       = Inr ((''OUT_OF_STOCK'', Some ''Option disabled''),
              [(0, ''variation'', ''Green Cream - Greekey'')])
   \<and> chromium_attempt green_cream_descriptor no_button_page
       = Inr ((''ERROR'', Some ''Variant selector button missing''),
              [(0, ''variation'', ''Green Cream - Greekey'')])
   \<and> chromium_attempt green_cream_descriptor missing_colour_page
       = Inr ((''ERROR'', Some (not_found ''Green Cream - Greekey'')),
              [(0, ''variation'', ''Green Cream - Greekey'')])
   \<and> chromium_attempt green_cream_descriptor slow_click_page
       = Inr ((''ERROR'', Some (click_timeout ''Green Cream - Greekey'')),
              [(0, ''variation'', ''Green Cream - Greekey'')])"
proof -
  let ?d = green_cream_descriptor
  let ?c = "''Green Cream - Greekey''"
  let ?opt = "popup_option ''Green Cream - Greekey'' (Some ''listbox__option listbox__option--disabled'')"
  let ?nat = "native_option ''Green Cream - Greekey'' (Some [])"
  let ?slow = "(popup_option ''Green Cream - Greekey'' (Some ''listbox__option''))
                 \<lparr> click_times_out := True \<rparr>"
  have k1: "\<not> is_in ''out of stock'' (lower ?c)" by code_simp
  have k2: "\<not> is_in ''disabled'' (lower ?c)" by code_simp
  have a1: "goto_fault disabled_colour_page = None" by code_simp
  have a2: "\<not> detect_challenge disabled_colour_page" by code_simp
  have a3: "collect_fault disabled_colour_page = None" by code_simp
  have a4: "dimensions_with_group (found_groups disabled_colour_page) ?d
            = [] @ (0, ''variation'', ?c) # [(1, ''size'', ''60 x 110 cm'')]" by code_simp
  have a5: "\<forall>e \<in> set []. fst e \<noteq> (0::nat)
           \<and> select_option_from_group (found_groups disabled_colour_page ! fst e) (snd (snd e))
               = Inr (True, None)" by simp
  have a6: "driver_fault (found_groups disabled_colour_page ! 0) = None" by code_simp
  have a7: "gtype (found_groups disabled_colour_page ! 0) \<noteq> ''select''" by code_simp
  have a8: "button_present (found_groups disabled_colour_page ! 0)" by code_simp
  have a9: "chosen_option (group_options (found_groups disabled_colour_page ! 0)) ?c
            = Some (?opt, ?c)" by code_simp
  have a10: "truthy (class_attr ?opt) \<and> is_in ''listbox__option--disabled'' (the (class_attr ?opt))"
    by code_simp
  have a11: "(0::int) \<le> 2" by simp
  note inst = failed_selection_short_circuits
         [where page = disabled_colour_page and d = ?d and pre = "[]" and g = 0
            and t = "''variation''" and v = ?c and post = "[(1, ''size'', ''60 x 110 cm'')]" and opt = ?opt and chosen_text = ?c
            and max_retries = 2 and visits = "\<lambda>k. disabled_colour_page",
          OF a1 a2 a3 a4 a5 a6]
  from inst a7 a8 a9 a10 obtain reason where
    reason: "reason \<noteq> []"
      "chromium_attempt ?d disabled_colour_page
          = Inr ((''OUT_OF_STOCK'', Some reason), [(0, ''variation'', ?c)])"
    by auto
  from inst reason(2) a11
  have "chromium_attempts ?d (\<lambda>k. disabled_colour_page) 2 0 ''BLOCKED'' None
          = (''OUT_OF_STOCK'', Some reason, 1)"
    by blast
  with reason have first: "\<exists>reason. reason \<noteq> []
      \<and> chromium_attempt ?d disabled_colour_page
          = Inr ((''OUT_OF_STOCK'', Some reason), [(0, ''variation'', ?c)])
      \<and> chromium_attempts ?d (\<lambda>k. disabled_colour_page) 2 0 ''BLOCKED'' None
          = (''OUT_OF_STOCK'', Some reason, 1)"
    by blast
  have b1: "goto_fault disabled_native_page = None" by code_simp
  have b2: "\<not> detect_challenge disabled_native_page" by code_simp
  have b3: "collect_fault disabled_native_page = None" by code_simp
  have b4: "dimensions_with_group (found_groups disabled_native_page) ?d
            = [] @ (0, ''variation'', ?c) # [(1, ''size'', ''60 x 110 cm'')]" by code_simp
  have b5: "\<forall>e \<in> set []. fst e \<noteq> (0::nat)
           \<and> select_option_from_group (found_groups disabled_native_page ! fst e) (snd (snd e))
               = Inr (True, None)" by simp
  have b6: "driver_fault (found_groups disabled_native_page ! 0) = None" by code_simp
  have b7: "gtype (found_groups disabled_native_page ! 0) = ''select''" by code_simp
  have b8: "find (\<lambda>option. option_matches (strip (inner_text option)) ?c)
              (group_options (found_groups disabled_native_page ! 0)) = Some ?nat" by code_simp
  have b9: "disabled_attr ?nat \<noteq> None" by code_simp
  from failed_selection_short_circuits
         [where page = disabled_native_page and d = ?d and pre = "[]" and g = 0
            and t = "''variation''" and v = ?c and post = "[(1, ''size'', ''60 x 110 cm'')]" and opt = ?nat,
          OF b1 b2 b3 b4 b5 b6]
       b7 b8 b9
  have second: "chromium_attempt ?d disabled_native_page
       = Inr ((''OUT_OF_STOCK'', Some ''Option disabled''), [(0, ''variation'', ?c)])"
    by (metis append_Nil)
  have c1: "goto_fault no_button_page = None" by code_simp
  have c2: "\<not> detect_challenge no_button_page" by code_simp
  have c3: "collect_fault no_button_page = None" by code_simp
  have c4: "dimensions_with_group (found_groups no_button_page) ?d
            = [] @ (0, ''variation'', ?c) # [(1, ''size'', ''60 x 110 cm'')]" by code_simp
  have c5: "\<forall>e \<in> set []. fst e \<noteq> (0::nat)
           \<and> select_option_from_group (found_groups no_button_page ! fst e) (snd (snd e))
               = Inr (True, None)" by simp
  have c6: "driver_fault (found_groups no_button_page ! 0) = None" by code_simp
  have c7: "gtype (found_groups no_button_page ! 0) \<noteq> ''select''" by code_simp
  have c8: "\<not> button_present (found_groups no_button_page ! 0)" by code_simp
  from failed_selection_short_circuits
         [where page = no_button_page and d = ?d and pre = "[]" and g = 0
            and t = "''variation''" and v = ?c and post = "[(1, ''size'', ''60 x 110 cm'')]",
          OF c1 c2 c3 c4 c5 c6]
       c7 c8
  have third: "chromium_attempt ?d no_button_page
       = Inr ((''ERROR'', Some ''Variant selector button missing''), [(0, ''variation'', ?c)])"
    by (metis append_Nil)
  have m1: "goto_fault missing_colour_page = None" by code_simp
  have m2: "\<not> detect_challenge missing_colour_page" by code_simp
  have m3: "collect_fault missing_colour_page = None" by code_simp
  have m4: "dimensions_with_group (found_groups missing_colour_page) ?d
            = [] @ (0, ''variation'', ?c) # [(1, ''size'', ''60 x 110 cm'')]" by code_simp
  have m5: "\<forall>e \<in> set []. fst e \<noteq> (0::nat)
           \<and> select_option_from_group (found_groups missing_colour_page ! fst e) (snd (snd e))
               = Inr (True, None)" by simp
  have m6: "driver_fault (found_groups missing_colour_page ! 0) = None" by code_simp
  have m7: "gtype (found_groups missing_colour_page ! 0) \<noteq> ''select''" by code_simp
  have m8: "button_present (found_groups missing_colour_page ! 0)" by code_simp
  have m9: "chosen_option (group_options (found_groups missing_colour_page ! 0)) ?c = None"
    by code_simp
  from failed_selection_short_circuits
         [where page = missing_colour_page and d = ?d and pre = "[]" and g = 0
            and t = "''variation''" and v = ?c and post = "[(1, ''size'', ''60 x 110 cm'')]",
          OF m1 m2 m3 m4 m5 m6]
       k1 k2 m7 m8 m9
  have fourth: "chromium_attempt ?d missing_colour_page
       = Inr ((''ERROR'', Some (not_found ?c)), [(0, ''variation'', ?c)])"
    by (metis append_Nil)
  have s1: "goto_fault slow_click_page = None" by code_simp
  have s2: "\<not> detect_challenge slow_click_page" by code_simp
  have s3: "collect_fault slow_click_page = None" by code_simp
  have s4: "dimensions_with_group (found_groups slow_click_page) ?d
            = [] @ (0, ''variation'', ?c) # [(1, ''size'', ''60 x 110 cm'')]" by code_simp
  have s5: "\<forall>e \<in> set []. fst e \<noteq> (0::nat)
           \<and> select_option_from_group (found_groups slow_click_page ! fst e) (snd (snd e))
               = Inr (True, None)" by simp
  have s6: "driver_fault (found_groups slow_click_page ! 0) = None" by code_simp
  have s7: "gtype (found_groups slow_click_page ! 0) \<noteq> ''select''" by code_simp
  have s8: "button_present (found_groups slow_click_page ! 0)" by code_simp
  have s9: "chosen_option (group_options (found_groups slow_click_page ! 0)) ?c = Some (?slow, ?c)"
    by code_simp
  have s10: "\<not> ((truthy (class_attr ?slow)
                  \<and> is_in ''listbox__option--disabled'' (the (class_attr ?slow)))
                \<or> aria_disabled ?slow = Some ''true'' \<or> is_in ''out of stock'' (lower ?c))"
    by code_simp
  have s11: "click_times_out ?slow" by code_simp
  from failed_selection_short_circuits
         [where page = slow_click_page and d = ?d and pre = "[]" and g = 0
            and t = "''variation''" and v = ?c and post = "[(1, ''size'', ''60 x 110 cm'')]" and opt = ?slow and chosen_text = ?c,
          OF s1 s2 s3 s4 s5 s6]
       k1 k2 s7 s8 s9 s10 s11
  have fifth: "chromium_attempt ?d slow_click_page
       = Inr ((''ERROR'', Some (click_timeout ?c)), [(0, ''variation'', ?c)])"
    by (metis append_Nil)
  from first second third fourth fifth show ?thesis by blast
qed

section \<open>Result rows: status and error detail\<close>

















end
